theory Spec2Isabelle
  imports Main "HOL-Library.AList"
begin

section \<open>Python values and the library calls the program uses\<close>

text \<open>
  The exceptions the program can meet. \<open>BdbQuit\<close> is what the debugger raises when
  its session is quit; \<open>ServerError\<close> and \<open>UnauthorizedAccess\<close> are the two
  exceptions of the remote catalogue client that the program names.
\<close>

datatype py_error =
    TypeError | IndexError | KeyError | ValueError | AttributeError | IOError
  | BdbQuit | ServerError | UnauthorizedAccess

text \<open>
  A subfield value: a string, or \<open>None\<close> (the value the program's own defaults
  \<open>[{'_': None}]\<close> carry). A field of a record is either the list of its
  occurrences, each a dictionary from subfield code to value, or a plain string (the
  keys \<open>collection\<close>, \<open>code\<close>, \<open>journal\<close>, ... that normalisation adds).
  A dictionary is an association list in insertion order; \<open>AList.update\<close> replaces
  in place or appends, as assignment to a Python dict does. Strings are taken to be
  ASCII, as tags, ISSNs and PIDs are, so that \<open>len\<close> counts the characters of the
  model and a digit is one of \<open>0\<close> .. \<open>9\<close>.
\<close>

datatype pyval = PNone | PStr string

type_synonym occurrence = "(string \<times> pyval) list"

datatype pyfield = Occs "occurrence list" | Scalar string

type_synonym isis_record = "(string \<times> pyfield) list"

fun truthy :: "pyval \<Rightarrow> bool" where
  "truthy PNone = False"
| "truthy (PStr s) = (s \<noteq> [])"

text \<open>\<open>c\<close> is one of the characters \<open>0\<close> .. \<open>9\<close>.\<close>

definition is_digit :: "char \<Rightarrow> bool" where
  "is_digit c = (48 \<le> (of_char c :: nat) \<and> (of_char c :: nat) \<le> 57)"

text \<open>\<open>str.isdigit()\<close>: a non-empty string of digits only.\<close>

definition isdigit :: "string \<Rightarrow> bool" where
  "isdigit s = (s \<noteq> [] \<and> list_all is_digit s)"

text \<open>
  \<open>int(s)\<close> on a run of decimal digits (the only strings the program converts). The
  result is unbounded, as Python's integers are; the cap on the number of digits that
  recent interpreters can be configured with is not modelled.
\<close>

definition int_of_digits :: "string \<Rightarrow> nat" where
  "int_of_digits s = foldl (\<lambda>n c. 10 * n + ((of_char c :: nat) - 48)) 0 s"

text \<open>\<open>str(n)\<close> for a natural number, and \<open>"%04d" % n\<close>.\<close>

function dec :: "nat \<Rightarrow> string" where
  "dec n = (if n < 10 then [char_of (48 + n)] else dec (n div 10) @ [char_of (48 + n mod 10)])"
  by pat_completeness auto
termination
  by (relation "measure (\<lambda>n. n)") auto

declare dec.simps [simp del]

definition fmt04d :: "nat \<Rightarrow> string" where
  "fmt04d n = replicate (4 - length (dec n)) (CHR ''0'') @ dec n"

text \<open>
  \<open>REGEX_FIXISSUEID.match(s).group()\<close> for the pattern \<open>^[0-9]*\<close>: the match never
  fails, and its group is the longest prefix of digits.
\<close>

definition REGEX_FIXISSUEID_match :: "string \<Rightarrow> string" where
  "REGEX_FIXISSUEID_match s = takeWhile is_digit s"

text \<open>
  \<open>record.get(key, [{'_': dflt}])[0]['_']\<close>. An empty occurrence list has no element
  0 (IndexError); an occurrence without the subfield \<open>_\<close> has no such key (KeyError); a
  plain string indexed by 0 raises IndexError when it is empty and otherwise yields a
  one-character string, which cannot be indexed by \<open>'_'\<close> (TypeError).
\<close>

definition get_primary :: "isis_record \<Rightarrow> string \<Rightarrow> pyval \<Rightarrow> py_error + pyval" where
  "get_primary record key dflt =
     (case map_of record key of
        None \<Rightarrow> Inr dflt
      | Some (Occs []) \<Rightarrow> Inl IndexError
      | Some (Occs (occ # _)) \<Rightarrow>
          (case map_of occ ''_'' of None \<Rightarrow> Inl KeyError | Some v \<Rightarrow> Inr v)
      | Some (Scalar s) \<Rightarrow> (if s = [] then Inl IndexError else Inl TypeError))"

section \<open>issue_pid\<close>

text \<open>
  The body of the \<open>try\<close> block: the four assignments, in order. Slicing \<open>None\<close>
  raises TypeError. The result is \<open>(issn, publication_year, order)\<close>.
\<close>

definition issue_pid_try :: "isis_record \<Rightarrow> py_error + (pyval \<times> string \<times> string)" where
  "issue_pid_try record =
     (case get_primary record ''v35'' PNone of
        Inl e \<Rightarrow> Inl e
      | Inr issn \<Rightarrow>
     (case get_primary record ''v36'' PNone of
        Inl e \<Rightarrow> Inl e
      | Inr PNone \<Rightarrow> Inl TypeError
      | Inr (PStr v36) \<Rightarrow>
     (let publication_year = take 4 v36 in
      case get_primary record ''v36'' PNone of
        Inl e \<Rightarrow> Inl e
      | Inr PNone \<Rightarrow> Inl TypeError
      | Inr (PStr v36') \<Rightarrow>
     (let grp = REGEX_FIXISSUEID_match (drop 4 v36');
          issue_order = (if grp \<noteq> [] then int_of_digits grp else 0);
          order = fmt04d issue_order
      in Inr (issn, publication_year, order)))))"

text \<open>
  \<open>issue_pid\<close>: \<open>Inr None\<close> is the return value \<open>None\<close>. Only TypeError is caught,
  and only inside the \<open>try\<close> block; the concatenation comes after it, where
  \<open>None + str\<close> raises TypeError.
\<close>

definition issue_pid :: "isis_record \<Rightarrow> py_error + string option" where
  "issue_pid record =
     (case issue_pid_try record of
        Inl e \<Rightarrow> (if e = TypeError then Inr None else Inl e)
      | Inr (issn, publication_year, order) \<Rightarrow>
          (case issn of
             PNone \<Rightarrow> Inl TypeError
           | PStr s \<Rightarrow> Inr (Some (s @ publication_year @ order))))"

section \<open>prepare_record\<close>

text \<open>
  What the program takes from outside itself: the clock
  (\<open>datetime.now().isoformat()\<close>, taken to give the same date at both places where
  one call reads it), the library call
  \<open>datetime.strptime(s, '%Y%m%d').isoformat()\<close>, the debugger entry
  \<open>pdb.set_trace()\<close> (which returns when the session is resumed and raises when it
  is quit), the configured \<open>ISO_PATH\<close>, and the record source
  \<open>IsisDataBroker(isofile).read()\<close>.
\<close>

record env =
  now_isoformat :: string
  strptime_isoformat :: "string \<Rightarrow> py_error + string"
  set_trace :: "py_error + unit"
  ISO_PATH :: string
  IsisDataBroker :: "string \<Rightarrow> py_error + isis_record list"

text \<open>\<open>s[i:j]\<close> for \<open>0 \<le> i \<le> j\<close>, and \<open>s.replace('-', '')\<close>.\<close>

definition slice :: "nat \<Rightarrow> nat \<Rightarrow> string \<Rightarrow> string" where
  "slice i j s = drop i (take j s)"

definition replace_dash :: "string \<Rightarrow> string" where
  "replace_dash s = filter (\<lambda>c. c \<noteq> CHR ''-'') s"

text \<open>
  The loop over \<open>tuple(record)\<close>: every tag made of digits moves to the key
  \<open>'v' + tag\<close>. The first component of the result is the record as the loop leaves
  it, also when a lookup raises.
\<close>

fun rename_tags :: "string list \<Rightarrow> isis_record \<Rightarrow> isis_record \<times> (py_error + unit)" where
  "rename_tags [] record = (record, Inr ())"
| "rename_tags (tag # tags) record =
     (if isdigit tag then
        (case map_of record tag of
           None \<Rightarrow> (record, Inl KeyError)
         | Some v \<Rightarrow> rename_tags tags (AList.delete tag (AList.update (''v'' @ tag) v record)))
      else rename_tags tags record)"

text \<open>
  Line 114: \<open>v880 or issue_pid(record) or v400\<close>. \<open>or\<close> yields its first operand
  when that is truthy and evaluates the next one only otherwise; the last operand is
  the result whatever it is.
\<close>

definition derive_pid :: "isis_record \<Rightarrow> py_error + pyval" where
  "derive_pid record =
     (case get_primary record ''v880'' PNone of
        Inl e \<Rightarrow> Inl e
      | Inr v880 \<Rightarrow>
          if truthy v880 then Inr v880
          else
            (case issue_pid record of
               Inl e \<Rightarrow> Inl e
             | Inr None \<Rightarrow> get_primary record ''v400'' PNone
             | Inr (Some p) \<Rightarrow>
                 if p \<noteq> [] then Inr (PStr p) else get_primary record ''v400'' PNone))"

text \<open>
  Lines 123 and 124, up to the value stored under \<open>processing_date\<close>. \<open>None\<close> has no
  method \<open>replace\<close> (AttributeError).
\<close>

definition processing_date :: "env \<Rightarrow> isis_record \<Rightarrow> py_error + string" where
  "processing_date env record =
     (case get_primary record ''v91'' (PStr (take 10 (now_isoformat env))) of
        Inl e \<Rightarrow> Inl e
      | Inr PNone \<Rightarrow> Inl AttributeError
      | Inr (PStr v91) \<Rightarrow>
          (let d = (if replace_dash v91 \<noteq> [] then replace_dash v91
                    else replace_dash (take 10 (now_isoformat env)))
           in case strptime_isoformat env d of
                Inl e \<Rightarrow> Inl e
              | Inr stamp_iso \<Rightarrow> Inr (take 10 stamp_iso)))"

text \<open>Lines 125 to 140: the four tests on \<open>len(pid)\<close>, each on its own.\<close>

definition decompose :: "string \<Rightarrow> isis_record \<Rightarrow> isis_record" where
  "decompose pid record =
     (let r1 = (if length pid = 9 then AList.update ''journal'' (Scalar pid) record
                else record);
          r2 = (if length pid = 17 then
                  AList.update ''issue'' (Scalar pid)
                    (AList.update ''journal'' (Scalar (take 9 pid)) r1)
                else r1);
          r3 = (if length pid = 23 then
                  AList.update ''document'' (Scalar pid)
                    (AList.update ''issue'' (Scalar (slice 1 18 pid))
                       (AList.update ''journal'' (Scalar (slice 1 10 pid)) r2))
                else r2);
          r4 = (if length pid = 28 then
                  AList.update ''document'' (Scalar (take 23 pid))
                    (AList.update ''issue'' (Scalar (slice 1 18 pid))
                       (AList.update ''journal'' (Scalar (slice 1 10 pid)) r3))
                else r3)
      in r4)"

text \<open>
  The assignments of lines 119 to 122.
\<close>

definition stamp :: "string \<Rightarrow> string \<Rightarrow> isis_record \<Rightarrow> isis_record" where
  "stamp collection pid record =
     AList.update ''v880'' (Occs [[(''_'', PStr pid)]])
       (AList.update ''code'' (Scalar pid)
          (AList.update ''collection'' (Scalar collection)
             (AList.update ''v992'' (Occs [[(''_'', PStr collection)]]) record)))"

text \<open>
  \<open>prepare_record\<close> works on the record in place. The first component of the result
  is the record as the call leaves it; the second is the exception raised, or the
  return value: \<open>None\<close>, or the record itself.
\<close>

definition prepare_record ::
  "env \<Rightarrow> string \<Rightarrow> isis_record \<Rightarrow> isis_record \<times> (py_error + isis_record option)" where
  "prepare_record env collection record =
     (case rename_tags (map fst record) record of
        (r1, Inl e) \<Rightarrow> (r1, Inl e)
      | (r1, Inr _) \<Rightarrow>
     (case derive_pid r1 of
        Inl e \<Rightarrow> (r1, Inl e)
      | Inr PNone \<Rightarrow> (r1, Inr None)
      | Inr (PStr pid) \<Rightarrow>
          if pid = [] then (r1, Inr None)
          else
            (let r2 = stamp collection pid r1 in
             case processing_date env r2 of
               Inl e \<Rightarrow> (r2, Inl e)
             | Inr d \<Rightarrow>
                 (let r3 = decompose pid (AList.update ''processing_date'' (Scalar d) r2)
                  in (r3, Inr (Some r3))))))"

section \<open>load_isis_records\<close>

datatype log_entry = LogError string | LogWarning string | LogInfo string

definition DATABASES :: "(string \<times> string) list" where
  "DATABASES = [(''title'', ''journals''), (''issue'', ''issues''),
                (''artigo'', ''articles''), (''bib4cit'', ''references'')]"

text \<open>
  What a scan has done when it stops: the pairs it has yielded, the records it has
  logged, and whether it ended by exhaustion or by an exception that reaches the
  consumer of the generator. Messages of level debug are left out.
\<close>

type_synonym scan = "(string \<times> isis_record) list \<times> log_entry list \<times> (py_error + unit)"

definition yield :: "string \<times> isis_record \<Rightarrow> scan \<Rightarrow> scan" where
  "yield y k = (case k of (ys, ls, res) \<Rightarrow> (y # ys, ls, res))"

definition logged :: "log_entry \<Rightarrow> scan \<Rightarrow> scan" where
  "logged l k = (case k of (ys, ls, res) \<Rightarrow> (ys, l # ls, res))"

definition raise :: "py_error \<Rightarrow> scan" where
  "raise e = ([], [], Inl e)"

text \<open>\<open>issns\<close> is \<open>None\<close> or a list; it is truthy when it is a non-empty list.\<close>

fun issns_truthy :: "string list option \<Rightarrow> bool" where
  "issns_truthy None = False"
| "issns_truthy (Some xs) = (xs \<noteq> [])"

text \<open>\<open>x in issns\<close>, for the value \<open>x\<close> of a field and a truthy \<open>issns\<close>.\<close>

fun in_issns :: "pyfield \<Rightarrow> string list option \<Rightarrow> bool" where
  "in_issns (Scalar s) (Some xs) = (s \<in> set xs)"
| "in_issns _ _ = False"

text \<open>
  The inner loop, lines 153 to 171, over the records of one database. The handler of
  line 159 enters the debugger, calls \<open>prepare_record\<close> again on the same record
  object, and only then logs and continues.
\<close>

fun scan_records ::
  "env \<Rightarrow> string \<Rightarrow> string list option \<Rightarrow> string \<Rightarrow> isis_record list \<Rightarrow> scan" where
  "scan_records env collection issns coll [] = ([], [], Inr ())"
| "scan_records env collection issns coll (record # records) =
     (case prepare_record env collection record of
        (record', Inl e) \<Rightarrow>
          (case set_trace env of
             Inl e' \<Rightarrow> raise e'
           | Inr _ \<Rightarrow>
               (case prepare_record env collection record' of
                  (_, Inl e'') \<Rightarrow> raise e''
                | (_, Inr _) \<Rightarrow>
                    logged (LogError ''Fail to load document. Integrity error.'')
                      (scan_records env collection issns coll records)))
      | (_, Inr None) \<Rightarrow> scan_records env collection issns coll records
      | (_, Inr (Some r)) \<Rightarrow>
          if r = [] then scan_records env collection issns coll records
          else if issns_truthy issns then
            (case map_of r ''journal'' of
               None \<Rightarrow> raise KeyError
             | Some j \<Rightarrow>
                 if \<not> in_issns j issns then scan_records env collection issns coll records
                 else yield (coll, r) (scan_records env collection issns coll records))
          else yield (coll, r) (scan_records env collection issns coll records))"

definition isofile :: "env \<Rightarrow> string \<Rightarrow> string \<Rightarrow> string" where
  "isofile env collection iso_name =
     ISO_PATH env @ ''/../isos/'' @ collection @ ''/'' @ iso_name @ ''.iso''"

text \<open>The outer loop over the databases; a database that follows continues the scan.\<close>

definition continue_with :: "scan \<Rightarrow> scan \<Rightarrow> scan" where
  "continue_with k1 k2 =
     (case k1 of
        (ys, ls, Inl e) \<Rightarrow> (ys, ls, Inl e)
      | (ys, ls, Inr _) \<Rightarrow> (case k2 of (ys', ls', res) \<Rightarrow> (ys @ ys', ls @ ls', res)))"

fun load_databases ::
  "env \<Rightarrow> string \<Rightarrow> string list option \<Rightarrow> (string \<times> string) list \<Rightarrow> scan" where
  "load_databases env collection issns [] = ([], [], Inr ())"
| "load_databases env collection issns ((iso_name, coll) # dbs) =
     logged (LogInfo (''Recording ('' @ coll @ '') records for collection ('' @ collection @ '')''))
       (case IsisDataBroker env (isofile env collection iso_name) of
          Inl e \<Rightarrow> (if e = IOError then raise ValueError else raise e)
        | Inr records \<Rightarrow>
            continue_with (scan_records env collection issns coll records)
              (load_databases env collection issns dbs))"

definition load_isis_records :: "env \<Rightarrow> string \<Rightarrow> string list option \<Rightarrow> scan" where
  "load_isis_records env collection issns = load_databases env collection issns DATABASES"

text \<open>
  A raw legacy record, as the record source delivers it: a dictionary (its keys are
  distinct) whose keys are numeric tags.
\<close>

definition raw_record :: "isis_record \<Rightarrow> bool" where
  "raw_record r = (distinct (map fst r) \<and> list_all (\<lambda>(tag, v). isdigit tag) r)"

section \<open>The remote identifier loaders\<close>

text \<open>
  The collaborators of \<open>run\<close>: the remote catalogue client \<open>rc\<close> (identifier
  listings, \<open>add_*\<close>, \<open>delete_*\<close>) and the legacy data broker \<open>ctrl\<close>
  (\<open>load_*\<close>). They are services with a state of their own, so the reply to a call
  may depend on the calls made before it. A metadata payload is \<open>Some m\<close> when it
  is truthy and \<open>None\<close> when it is \<open>None\<close> or empty. \<open>rc_add\<close> stands for
  \<open>rc.add_*(json.dumps(meta))\<close>.
\<close>

datatype kind = Document | Journal | Issue

record remote_item =
  id_collection :: string
  id_code :: string
  id_processing_date :: string

datatype 'm call =
    Query kind string "string option"
  | Load kind string string
  | Add kind 'm
  | Delete kind string string

record 'm services =
  rc_query :: "'m call list \<Rightarrow> kind \<Rightarrow> string \<Rightarrow> string option \<Rightarrow> py_error + remote_item list"
  ctrl_load :: "'m call list \<Rightarrow> kind \<Rightarrow> string \<Rightarrow> string \<Rightarrow> py_error + 'm option"
  rc_add :: "'m call list \<Rightarrow> kind \<Rightarrow> 'm \<Rightarrow> py_error + unit"
  rc_delete :: "'m call list \<Rightarrow> kind \<Rightarrow> string \<Rightarrow> string \<Rightarrow> py_error + unit"

text \<open>\<open>'_'.join(xs)\<close> and \<open>s.split('_')\<close>.\<close>

fun join_underscore :: "string list \<Rightarrow> string" where
  "join_underscore [] = []"
| "join_underscore [x] = x"
| "join_underscore (x # y # ys) = x @ ''_'' @ join_underscore (y # ys)"

fun split_underscore :: "string \<Rightarrow> string list" where
  "split_underscore [] = [[]]"
| "split_underscore (c # cs) =
     (if c = CHR ''_'' then [] # split_underscore cs
      else (case split_underscore cs of
              [] \<Rightarrow> [[c]]
            | w # ws \<Rightarrow> (c # w) # ws))"

text \<open>The key of an item of an identifier listing; a journal key has no date.\<close>

fun identifier_key :: "kind \<Rightarrow> remote_item \<Rightarrow> string" where
  "identifier_key Journal i = join_underscore [id_collection i, id_code i]"
| "identifier_key k i =
     join_underscore [id_collection i, id_code i, replace_dash (id_processing_date i)]"

text \<open>\<open>issns or [None]\<close>.\<close>

definition issns_or_none :: "string list option \<Rightarrow> string option list" where
  "issns_or_none issns =
     (case issns of
        None \<Rightarrow> [None]
      | Some xs \<Rightarrow> (if xs = [] then [None] else map Some xs))"

text \<open>
  The loop \<open>for issn in issns or [None]\<close> of a loader, on the calls made so far. An
  exception of a listing leaves the loader.
\<close>

fun query_loop ::
  "'m services \<Rightarrow> kind \<Rightarrow> string \<Rightarrow> string option list \<Rightarrow> 'm call list \<Rightarrow>
   'm call list \<times> (py_error + string list)" where
  "query_loop sv k collection [] tr = (tr, Inr [])"
| "query_loop sv k collection (issn # issns) tr =
     (case rc_query sv tr k collection issn of
        Inl e \<Rightarrow> (tr @ [Query k collection issn], Inl e)
      | Inr items \<Rightarrow>
          (case query_loop sv k collection issns (tr @ [Query k collection issn]) of
             (tr', Inl e) \<Rightarrow> (tr', Inl e)
           | (tr', Inr pids) \<Rightarrow> (tr', Inr (map (identifier_key k) items @ pids))))"

definition load_articlemeta_issues_ids ::
  "'m services \<Rightarrow> string \<Rightarrow> string list option \<Rightarrow> 'm call list \<Rightarrow>
   'm call list \<times> (py_error + string list)" where
  "load_articlemeta_issues_ids sv collection issns tr =
     query_loop sv Issue collection (issns_or_none issns) tr"

definition load_articlemeta_documents_ids ::
  "'m services \<Rightarrow> string \<Rightarrow> string list option \<Rightarrow> 'm call list \<Rightarrow>
   'm call list \<times> (py_error + string list)" where
  "load_articlemeta_documents_ids sv collection issns tr =
     query_loop sv Document collection (issns_or_none issns) tr"

definition load_articlemeta_journals_ids ::
  "'m services \<Rightarrow> string \<Rightarrow> string list option \<Rightarrow> 'm call list \<Rightarrow>
   'm call list \<times> (py_error + string list)" where
  "load_articlemeta_journals_ids sv collection issns tr =
     query_loop sv Journal collection (issns_or_none issns) tr"

section \<open>run: the six phases\<close>

text \<open>
  The state of a run: the calls made to the collaborators and the log, both in
  order. Messages of level debug are left out.
\<close>

record 'm run_state =
  calls :: "'m call list"
  logs :: "log_entry list"

definition called :: "'m call \<Rightarrow> 'm run_state \<Rightarrow> 'm run_state" where
  "called c st = st\<lparr>calls := calls st @ [c]\<rparr>"

definition logging :: "log_entry \<Rightarrow> 'm run_state \<Rightarrow> 'm run_state" where
  "logging l st = st\<lparr>logs := logs st @ [l]\<rparr>"





definition unauthorized_msg :: string where
  "unauthorized_msg = ''Unauthorized access to remove itens, check the ArticleMeta admin token''"







text \<open>One phase after another: an exception ends the run.\<close>

definition and_then ::
  "'m run_state \<times> (py_error + unit) \<Rightarrow>
   ('m run_state \<Rightarrow> 'm run_state \<times> (py_error + unit)) \<Rightarrow> 'm run_state \<times> (py_error + unit)" where
  "and_then r f = (case r of (st, Inl e) \<Rightarrow> (st, Inl e) | (st, Inr _) \<Rightarrow> f st)"





text \<open>The calls of one operation and kind in a trace, in order.\<close>

fun is_delete :: "kind \<Rightarrow> 'm call \<Rightarrow> bool" where
  "is_delete k (Delete k' _ _) = (k = k')"
| "is_delete k _ = False"

fun is_load :: "kind \<Rightarrow> 'm call \<Rightarrow> bool" where
  "is_load k (Load k' _ _) = (k = k')"
| "is_load k _ = False"

fun is_query :: "'m call \<Rightarrow> bool" where
  "is_query (Query _ _ _) = True"
| "is_query _ = False"

text \<open>The delete call and the load call of a key.\<close>

definition delete_call :: "kind \<Rightarrow> string \<Rightarrow> 'm call" where
  "delete_call k item = Delete k (split_underscore item ! 1) (split_underscore item ! 0)"

definition load_call :: "kind \<Rightarrow> string \<Rightarrow> 'm call" where
  "load_call k item = Load k (split_underscore item ! 0) (split_underscore item ! 1)"



text \<open>
  Following the specification (section 4.5), the treatment of one key in a removal
  phase, taken on its own: call \<open>delete_*\<close> with the code and the collection of the
  key, and log a warning when the call fails. Nothing here ends the batch.
\<close>

definition spec_remove_item :: "'m services \<Rightarrow> kind \<Rightarrow> string \<Rightarrow> 'm run_state \<Rightarrow> 'm run_state" where
  "spec_remove_item sv k item st =
     (case rc_delete sv (calls st) k (split_underscore item ! 1) (split_underscore item ! 0) of
        Inl e \<Rightarrow> logging (LogWarning unauthorized_msg) (called (delete_call k item) st)
      | Inr u \<Rightarrow> called (delete_call k item) st)"

text \<open>The add calls of a kind in a trace.\<close>

fun is_add :: "kind \<Rightarrow> 'm call \<Rightarrow> bool" where
  "is_add k (Add k' _) = (k = k')"
| "is_add k _ = False"

section \<open>The date parser of the examples\<close>

text \<open>
  \<open>datetime.strptime(s, '%Y%m%d').isoformat()\<close> as the standard library computes it.
  The format compiles to the regular expression
  \<open>(\d\d\d\d)(1[0-2]|0[1-9]|[1-9])(3[0-1]|[1-2]\d|0[1-9]|[1-9]| [1-9])\<close>, matched at
  the start of the string with the alternatives tried in order; what the match leaves
  unconverted, a year 0 and a day the month does not have raise ValueError. The
  theorems below hold for every parser; the examples run this one.
\<close>

definition digit_value :: "char \<Rightarrow> nat" where
  "digit_value c = (of_char c :: nat) - 48"

definition month_alternatives :: "string \<Rightarrow> (nat \<times> string) list" where
  "month_alternatives s =
     (case s of
        c1 # c2 # rest \<Rightarrow>
          (if c1 = CHR ''1'' \<and> c2 \<in> set ''012'' then [(10 + digit_value c2, rest)] else []) @
          (if c1 = CHR ''0'' \<and> c2 \<in> set ''123456789'' then [(digit_value c2, rest)] else [])
      | _ \<Rightarrow> []) @
     (case s of
        c1 # rest \<Rightarrow> (if c1 \<in> set ''123456789'' then [(digit_value c1, rest)] else [])
      | [] \<Rightarrow> [])"

definition day_alternatives :: "string \<Rightarrow> (nat \<times> string) list" where
  "day_alternatives s =
     (case s of
        c1 # c2 # rest \<Rightarrow>
          (if c1 = CHR ''3'' \<and> c2 \<in> set ''01'' then [(30 + digit_value c2, rest)] else []) @
          (if c1 \<in> set ''12'' \<and> is_digit c2 then [(10 * digit_value c1 + digit_value c2, rest)]
           else []) @
          (if c1 = CHR ''0'' \<and> c2 \<in> set ''123456789'' then [(digit_value c2, rest)] else [])
      | _ \<Rightarrow> []) @
     (case s of
        c1 # rest \<Rightarrow> (if c1 \<in> set ''123456789'' then [(digit_value c1, rest)] else [])
      | [] \<Rightarrow> []) @
     (case s of
        c1 # c2 # rest \<Rightarrow>
          (if c1 = CHR '' '' \<and> c2 \<in> set ''123456789'' then [(digit_value c2, rest)] else [])
      | _ \<Rightarrow> [])"

definition days_in_month :: "nat \<Rightarrow> nat \<Rightarrow> nat" where
  "days_in_month y m =
     (if m = 2 then (if y mod 4 = 0 \<and> (y mod 100 \<noteq> 0 \<or> y mod 400 = 0) then 29 else 28)
      else if m \<in> {4, 6, 9, 11} then 30 else 31)"

definition pad2 :: "nat \<Rightarrow> string" where
  "pad2 n = replicate (2 - length (dec n)) (CHR ''0'') @ dec n"

definition strptime_Ymd_isoformat :: "string \<Rightarrow> py_error + string" where
  "strptime_Ymd_isoformat s =
     (if length s < 4 \<or> \<not> list_all is_digit (take 4 s) then Inl ValueError
      else
        (case concat (map (\<lambda>(m, rest). map (\<lambda>(d, rest'). (m, d, rest')) (day_alternatives rest))
                       (month_alternatives (drop 4 s))) of
           [] \<Rightarrow> Inl ValueError
         | (m, d, rest) # _ \<Rightarrow>
             (let y = int_of_digits (take 4 s) in
              if rest \<noteq> [] \<or> y = 0 \<or> days_in_month y m < d then Inl ValueError
              else Inr (fmt04d y @ ''-'' @ pad2 m @ ''-'' @ pad2 d @ ''T00:00:00''))))"

section \<open>The collaborators of the examples\<close>

text \<open>
  An environment for the examples: a fixed clock, a debugger session that is resumed,
  and a collection \<open>scl\<close> whose title database holds two journals and whose other
  databases are empty.
\<close>

definition example_records :: "string \<Rightarrow> py_error + isis_record list" where
  "example_records path =
     (if path = ''/app/isis2mongo/../isos/scl/title.iso'' then
        Inr [[(''400'', Occs [[(''_'', PStr ''0032-281X'')]])],
             [(''400'', Occs [[(''_'', PStr ''1234-5678'')]])]]
      else Inr [])"

definition example_env :: env where
  "example_env =
     \<lparr> now_isoformat = ''2018-05-17T10:20:30.123456'',
       strptime_isoformat = strptime_Ymd_isoformat,
       set_trace = Inr (),
       ISO_PATH = ''/app/isis2mongo'',
       IsisDataBroker = example_records \<rparr>"

text \<open>
  Services for the examples. A listing has one item. The broker has no metadata for
  the code \<open>missing\<close> and fails on the code \<open>broken\<close>; the catalogue refuses the
  payload of the code \<open>rejected\<close> with a server error and the deletion of the code
  \<open>locked\<close> for lack of rights.
\<close>

definition example_services :: "string services" where
  "example_services =
     \<lparr> rc_query = (\<lambda>h k c issn.
         Inr [\<lparr> id_collection = c,
                id_code = (case issn of None \<Rightarrow> ''0032-281X'' | Some i \<Rightarrow> i),
                id_processing_date = ''2018-05-17'' \<rparr>]),
       ctrl_load = (\<lambda>h k c code.
         if code = ''missing'' then Inr None
         else if code = ''broken'' then Inl KeyError
         else Inr (Some (c @ ''_'' @ code))),
       rc_add = (\<lambda>h k m. if m = ''scl_rejected'' then Inl ServerError else Inr ()),
       rc_delete = (\<lambda>h k code c. if code = ''locked'' then Inl UnauthorizedAccess else Inr ()) \<rparr>"




section \<open>Decimal formatting\<close>

lemma is_digit_char_of: "(d::nat) < 10 \<Longrightarrow> is_digit (char_of (48 + d))"
  by (simp add: is_digit_def)

lemma dec_all_digits: "list_all is_digit (dec n)"
proof (induction n rule: dec.induct)
  case (1 n)
  show ?case
  proof (cases "n < 10")
    case True
    then show ?thesis by (subst dec.simps) (simp add: is_digit_char_of)
  next
    case False
    with 1 show ?thesis by (subst dec.simps) (simp add: is_digit_char_of)
  qed
qed

lemma int_of_digits_snoc:
  "int_of_digits (s @ [c]) = 10 * int_of_digits s + ((of_char c :: nat) - 48)"
  by (simp add: int_of_digits_def)

lemma int_of_digits_dec: "int_of_digits (dec n) = n"
proof (induction n rule: dec.induct)
  case (1 n)
  show ?case
  proof (cases "n < 10")
    case True
    then show ?thesis by (subst dec.simps) (simp add: int_of_digits_def)
  next
    case False
    with 1 have "int_of_digits (dec (n div 10)) = n div 10" by simp
    with False show ?thesis
      by (subst dec.simps) (simp add: int_of_digits_snoc)
  qed
qed

lemma int_of_digits_zeros: "int_of_digits (replicate k (CHR ''0'') @ s) = int_of_digits s"
proof (induction k)
  case 0
  show ?case by simp
next
  case (Suc k)
  have "foldl (\<lambda>n c. 10 * n + ((of_char c :: nat) - 48)) 0
          (CHR ''0'' # replicate k (CHR ''0'') @ s)
      = foldl (\<lambda>n c. 10 * n + ((of_char c :: nat) - 48)) 0 (replicate k (CHR ''0'') @ s)"
    by simp
  with Suc show ?case by (simp add: int_of_digits_def)
qed

lemma length_dec_small: "n < 10000 \<Longrightarrow> length (dec n) \<le> 4"
  apply (subst dec.simps, simp)
  apply (subst dec.simps, simp)
  apply (subst dec.simps, simp)
  apply (subst dec.simps, simp)
  done

lemma length_fmt04d: "length (fmt04d n) = max 4 (length (dec n))"
  by (simp add: fmt04d_def)

lemma fmt04d_digits: "list_all is_digit (fmt04d n)"
proof -
  have "is_digit (CHR ''0'')" by (simp add: is_digit_def)
  then have "list_all is_digit (replicate k (CHR ''0''))" for k
    by (induction k) simp_all
  then show ?thesis by (simp add: fmt04d_def dec_all_digits)
qed

lemma int_of_digits_fmt04d: "int_of_digits (fmt04d n) = n"
  by (simp add: fmt04d_def int_of_digits_zeros int_of_digits_dec)

section \<open>The issue PID\<close>

lemma issue_pid_try_strings:
  assumes "get_primary record ''v35'' PNone = Inr issn"
      and "get_primary record ''v36'' PNone = Inr (PStr v36)"
  shows "issue_pid_try record =
           Inr (issn, take 4 v36,
                fmt04d (int_of_digits (takeWhile is_digit (drop 4 v36))))"
proof -
  have "int_of_digits [] = 0" by (simp add: int_of_digits_def)
  then have "(if takeWhile is_digit (drop 4 v36) \<noteq> []
              then int_of_digits (takeWhile is_digit (drop 4 v36)) else 0)
           = int_of_digits (takeWhile is_digit (drop 4 v36))"
    by simp
  with assms show ?thesis
    by (simp add: issue_pid_try_def REGEX_FIXISSUEID_match_def Let_def)
qed

lemma issue_pid_none_without_v36:
  assumes "map_of record ''v36'' = None"
      and "get_primary record ''v35'' PNone = Inr issn"
  shows "issue_pid record = Inr None"
  using assms by (simp add: issue_pid_def issue_pid_try_def get_primary_def)

lemma issue_pid_nonempty: "issue_pid record = Inr (Some p) \<Longrightarrow> p \<noteq> []"
proof -
  assume a: "issue_pid record = Inr (Some p)"
  have "fmt04d n \<noteq> []" for n
    using length_fmt04d [of n] by auto
  with a show ?thesis
    by (auto simp: issue_pid_def issue_pid_try_def Let_def
             split: sum.splits pyval.splits if_splits)
qed

text \<open>
  C1. When the primary values of \<open>v35\<close> and \<open>v36\<close> are strings and that of \<open>v36\<close>
  has at least four characters, \<open>issue_pid\<close> returns the \<open>v35\<close> value, followed by
  the first four characters of the \<open>v36\<close> value, followed by the number that the
  leading digits of the rest of the \<open>v36\<close> value spell (0 when there are none),
  written in decimal and padded with zeros on the left to four characters: the suffix
  consists of digits, spells that number, and has exactly four characters when the
  number is below 10000. The four examples of the docstring come out as documented.
\<close>

theorem issue_pid_derivation:
  "(\<forall>record issn v36.
      get_primary record ''v35'' PNone = Inr (PStr issn) \<and>
      get_primary record ''v36'' PNone = Inr (PStr v36) \<and> 4 \<le> length v36 \<longrightarrow>
      (\<exists>order.
         issue_pid record = Inr (Some (issn @ take 4 v36 @ order)) \<and>
         order = fmt04d (int_of_digits (takeWhile is_digit (drop 4 v36))) \<and>
         list_all is_digit order \<and>
         int_of_digits order = int_of_digits (takeWhile is_digit (drop 4 v36)) \<and>
         4 \<le> length order \<and>
         (int_of_digits (takeWhile is_digit (drop 4 v36)) < 10000 \<longrightarrow> length order = 4)))
   \<and> issue_pid [(''v35'', Occs [[(''_'', PStr ''0032-281X'')]]),
                (''v36'', Occs [[(''_'', PStr ''20023'')]])]
        = Inr (Some ''0032-281X20020003'')
   \<and> issue_pid [(''v35'', Occs [[(''_'', PStr ''0032-281X'')]]),
                (''v36'', Occs [[(''_'', PStr ''200221'')]])]
        = Inr (Some ''0032-281X20020021'')
   \<and> issue_pid [(''v35'', Occs [[(''_'', PStr ''0032-281X'')]]),
                (''v36'', Occs [[(''_'', PStr ''20021-4'')]])]
        = Inr (Some ''0032-281X20020001'')
   \<and> issue_pid [(''v35'', Occs [[(''_'', PStr ''0032-281X'')]]),
                (''v36'', Occs [[(''_'', PStr ''2002'')]])]
        = Inr (Some ''0032-281X20020000'')"
proof (intro conjI allI impI)
  fix r :: isis_record and issn v36
  assume h: "get_primary r ''v35'' PNone = Inr (PStr issn) \<and>
             get_primary r ''v36'' PNone = Inr (PStr v36) \<and> 4 \<le> length v36"
  let ?n = "int_of_digits (takeWhile is_digit (drop 4 v36))"
  from h have "issue_pid r = Inr (Some (issn @ take 4 v36 @ fmt04d ?n))"
    by (simp add: issue_pid_def issue_pid_try_strings)
  moreover have "list_all is_digit (fmt04d ?n)" by (rule fmt04d_digits)
  moreover have "int_of_digits (fmt04d ?n) = ?n" by (rule int_of_digits_fmt04d)
  moreover have "4 \<le> length (fmt04d ?n)" by (simp add: length_fmt04d)
  moreover have "?n < 10000 \<longrightarrow> length (fmt04d ?n) = 4"
    using length_dec_small [of ?n] by (auto simp: length_fmt04d)
  ultimately show "\<exists>order.
         issue_pid r = Inr (Some (issn @ take 4 v36 @ order)) \<and>
         order = fmt04d ?n \<and> list_all is_digit order \<and> int_of_digits order = ?n \<and>
         4 \<le> length order \<and> (?n < 10000 \<longrightarrow> length order = 4)"
    by blast
next
  show "issue_pid [(''v35'', Occs [[(''_'', PStr ''0032-281X'')]]),
                   (''v36'', Occs [[(''_'', PStr ''20023'')]])]
        = Inr (Some ''0032-281X20020003'')"
    by code_simp
next
  show "issue_pid [(''v35'', Occs [[(''_'', PStr ''0032-281X'')]]),
                   (''v36'', Occs [[(''_'', PStr ''200221'')]])]
        = Inr (Some ''0032-281X20020021'')"
    by code_simp
next
  show "issue_pid [(''v35'', Occs [[(''_'', PStr ''0032-281X'')]]),
                   (''v36'', Occs [[(''_'', PStr ''20021-4'')]])]
        = Inr (Some ''0032-281X20020001'')"
    by code_simp
next
  show "issue_pid [(''v35'', Occs [[(''_'', PStr ''0032-281X'')]]),
                   (''v36'', Occs [[(''_'', PStr ''2002'')]])]
        = Inr (Some ''0032-281X20020000'')"
    by code_simp
qed

theorem issue_pid_derivation_witness:
  "get_primary [(''v35'', Occs [[(''_'', PStr ''0032-281X'')]]),
                (''v36'', Occs [[(''_'', PStr ''200221'')]])] ''v35'' PNone
     = Inr (PStr ''0032-281X'')
   \<and> get_primary [(''v35'', Occs [[(''_'', PStr ''0032-281X'')]]),
                  (''v36'', Occs [[(''_'', PStr ''200221'')]])] ''v36'' PNone
     = Inr (PStr ''200221'')
   \<and> 4 \<le> length ''200221''
   \<and> (\<exists>order.
         issue_pid [(''v35'', Occs [[(''_'', PStr ''0032-281X'')]]),
                    (''v36'', Occs [[(''_'', PStr ''200221'')]])]
           = Inr (Some (''0032-281X'' @ ''2002'' @ order)) \<and>
         list_all is_digit order \<and> int_of_digits order = 21 \<and> length order = 4)"
proof -
  let ?r = "[(''v35'', Occs [[(''_'', PStr ''0032-281X'')]]),
             (''v36'', Occs [[(''_'', PStr ''200221'')]])]"
  have a: "get_primary ?r ''v35'' PNone = Inr (PStr ''0032-281X'')" by code_simp
  have b: "get_primary ?r ''v36'' PNone = Inr (PStr ''200221'')" by code_simp
  have c: "4 \<le> length ''200221''" by simp
  have n: "int_of_digits (takeWhile is_digit (drop 4 ''200221'')) = 21" by code_simp
  from issue_pid_derivation have
    "get_primary ?r ''v35'' PNone = Inr (PStr ''0032-281X'') \<and>
     get_primary ?r ''v36'' PNone = Inr (PStr ''200221'') \<and> 4 \<le> length ''200221'' \<longrightarrow>
     (\<exists>order.
         issue_pid ?r = Inr (Some (''0032-281X'' @ take 4 ''200221'' @ order)) \<and>
         order = fmt04d (int_of_digits (takeWhile is_digit (drop 4 ''200221''))) \<and>
         list_all is_digit order \<and>
         int_of_digits order = int_of_digits (takeWhile is_digit (drop 4 ''200221'')) \<and>
         4 \<le> length order \<and>
         (int_of_digits (takeWhile is_digit (drop 4 ''200221'')) < 10000 \<longrightarrow>
          length order = 4))"
    by blast
  with a b c obtain order where
    "issue_pid ?r = Inr (Some (''0032-281X'' @ take 4 ''200221'' @ order))"
    "list_all is_digit order"
    "int_of_digits order = int_of_digits (takeWhile is_digit (drop 4 ''200221''))"
    "int_of_digits (takeWhile is_digit (drop 4 ''200221'')) < 10000 \<longrightarrow> length order = 4"
    by blast
  with n have "issue_pid ?r = Inr (Some (''0032-281X'' @ ''2002'' @ order)) \<and>
         list_all is_digit order \<and> int_of_digits order = 21 \<and> length order = 4"
    by simp
  with a b c show ?thesis by blast
qed

text \<open>
  C3. A record without \<open>v35\<close> whose \<open>v36\<close> primary value is a string makes
  \<open>issue_pid\<close> raise TypeError: the \<open>try\<close> block completes with \<open>issn = None\<close>, and
  the concatenation after it is not covered by the handler.
\<close>

theorem issue_pid_raises_without_v35:
  assumes "map_of record ''v35'' = None"
      and "get_primary record ''v36'' PNone = Inr (PStr v36)"
  shows "issue_pid record = Inl TypeError"
proof -
  from assms(1) have "get_primary record ''v35'' PNone = Inr PNone"
    by (simp add: get_primary_def)
  with assms(2) show ?thesis
    by (simp add: issue_pid_def issue_pid_try_strings)
qed

theorem issue_pid_raises_without_v35_witness:
  "map_of [(''v36'', Occs [[(''_'', PStr ''20023'')]])] ''v35'' = None
   \<and> get_primary [(''v36'', Occs [[(''_'', PStr ''20023'')]])] ''v36'' PNone
       = Inr (PStr ''20023'')
   \<and> issue_pid [(''v36'', Occs [[(''_'', PStr ''20023'')]])] = Inl TypeError"
proof -
  let ?r = "[(''v36'', Occs [[(''_'', PStr ''20023'')]])]"
  have a: "map_of ?r ''v35'' = None" by simp
  have b: "get_primary ?r ''v36'' PNone = Inr (PStr ''20023'')" by code_simp
  from issue_pid_raises_without_v35 [OF a b] a b show ?thesis by blast
qed

section \<open>Renaming the tags\<close>

lemma isdigit_not_v: "isdigit k \<Longrightarrow> hd k \<noteq> CHR ''v''"
  by (cases k) (auto simp: isdigit_def is_digit_def)

lemma v_not_isdigit: "\<not> isdigit (CHR ''v'' # t)"
  by (simp add: isdigit_def is_digit_def)

lemma rename_tags_other:
  "rename_tags ts r = (r', res) \<Longrightarrow> \<not> isdigit k \<Longrightarrow> hd k \<noteq> CHR ''v'' \<Longrightarrow>
   map_of r' k = map_of r k"
proof (induction ts arbitrary: r)
  case Nil
  then show ?case by simp
next
  case (Cons tag ts)
  show ?case
  proof (cases "isdigit tag")
    case False
    with Cons show ?thesis by simp
  next
    case True
    show ?thesis
    proof (cases "map_of r tag")
      case None
      with True Cons.prems show ?thesis by simp
    next
      case (Some v)
      with True Cons.prems
      have "rename_tags ts (AList.delete tag (AList.update (''v'' @ tag) v r)) = (r', res)"
        by simp
      from Cons.IH [OF this Cons.prems(2,3)]
      have "map_of r' k = map_of (AList.delete tag (AList.update (''v'' @ tag) v r)) k" .
      moreover from True Cons.prems(2) have "k \<noteq> tag" by auto
      moreover from Cons.prems(3) have "k \<noteq> ''v'' @ tag" by auto
      ultimately show ?thesis by (simp add: AList.update_conv')
    qed
  qed
qed

lemma rename_tags_no_digits:
  "\<forall>t \<in> set ts. \<not> isdigit t \<Longrightarrow> rename_tags ts r = (r, Inr ())"
  by (induction ts) simp_all

lemma rename_tags_ok:
  "distinct ts \<Longrightarrow> \<forall>t \<in> set ts. isdigit t \<longrightarrow> map_of r t \<noteq> None \<Longrightarrow>
   \<exists>r'. rename_tags ts r = (r', Inr ())"
proof (induction ts arbitrary: r)
  case Nil
  then show ?case by simp
next
  case (Cons tag ts)
  show ?case
  proof (cases "isdigit tag")
    case False
    with Cons show ?thesis by simp
  next
    case True
    with Cons.prems obtain v where v: "map_of r tag = Some v" by auto
    let ?r2 = "AList.delete tag (AList.update (''v'' @ tag) v r)"
    have "\<forall>t \<in> set ts. isdigit t \<longrightarrow> map_of ?r2 t \<noteq> None"
    proof (intro ballI impI)
      fix t assume t: "t \<in> set ts" "isdigit t"
      with Cons.prems have "t \<noteq> tag" "map_of r t \<noteq> None" by auto
      then show "map_of ?r2 t \<noteq> None" by (simp add: AList.update_conv')
    qed
    moreover from Cons.prems have "distinct ts" by simp
    ultimately have "\<exists>r'. rename_tags ts ?r2 = (r', Inr ())" by (rule Cons.IH [rotated])
    with True v show ?thesis by simp
  qed
qed

lemma rename_tags_lookup:
  "distinct ts \<Longrightarrow> rename_tags ts r = (r', Inr ()) \<Longrightarrow>
   map_of r' k =
     (if isdigit k \<and> k \<in> set ts then None
      else if \<exists>t \<in> set ts. isdigit t \<and> k = ''v'' @ t then map_of r (tl k)
      else map_of r k)"
proof (induction ts arbitrary: r)
  case Nil
  then show ?case by simp
next
  case (Cons tag ts)
  show ?case
  proof (cases "isdigit tag")
    case False
    with Cons.prems have "rename_tags ts r = (r', Inr ())" "distinct ts" by simp_all
    from Cons.IH [OF this(2,1)] False show ?thesis by auto
  next
    case True
    show ?thesis
    proof (cases "map_of r tag")
      case None
      with True Cons.prems show ?thesis by simp
    next
      case (Some v)
      let ?r2 = "AList.delete tag (AList.update (''v'' @ tag) v r)"
      from Some True Cons.prems have run: "rename_tags ts ?r2 = (r', Inr ())" by simp
      from Cons.prems have d: "distinct ts" "tag \<notin> set ts" by simp_all
      have r2: "map_of ?r2 x = (if x = tag then None else if x = ''v'' @ tag then Some v else map_of r x)" for x
        by (simp add: AList.update_conv' AList.delete_conv')
      have nv: "\<not> isdigit (''v'' @ t)" for t by (simp add: v_not_isdigit)
      from Cons.IH [OF d(1) run]
      have ih: "map_of r' k =
         (if isdigit k \<and> k \<in> set ts then None
          else if \<exists>t \<in> set ts. isdigit t \<and> k = ''v'' @ t then map_of ?r2 (tl k)
          else map_of ?r2 k)" .
      show ?thesis
      proof (cases "isdigit k \<and> k \<in> set ts")
        case True
        with ih show ?thesis by simp
      next
        case nd: False
        show ?thesis
        proof (cases "\<exists>t \<in> set ts. isdigit t \<and> k = ''v'' @ t")
          case True
          then obtain t where t: "t \<in> set ts" "isdigit t" "k = ''v'' @ t" by blast
          with d have "t \<noteq> tag" by auto
          moreover from t nv [of tag] have "t \<noteq> ''v'' @ tag" by auto
          ultimately have "map_of ?r2 t = map_of r t" using r2 [of t] by simp
          moreover have "map_of r' k = map_of ?r2 (tl k)"
            by (subst ih, subst if_not_P [OF nd], subst if_P [OF True], rule refl)
          ultimately have "map_of r' k = map_of r t" using t by simp
          with nd True t nv [of t] show ?thesis by auto
        next
          case nt: False
          have "map_of r' k = map_of ?r2 k"
            by (subst ih, subst if_not_P [OF nd], subst if_not_P [OF nt], rule refl)
          then have "map_of r' k =
              (if k = tag then None else if k = ''v'' @ tag then Some v else map_of r k)"
            by (simp only: r2)
          with Some True nd nt nv [of tag] show ?thesis by auto
        qed
      qed
    qed
  qed
qed

lemma rename_tags_keys:
  "rename_tags ts r = (r', res) \<Longrightarrow> k \<in> fst ` set r' \<Longrightarrow> isdigit k \<Longrightarrow>
   k \<in> fst ` set r \<and> (res = Inr () \<longrightarrow> k \<notin> set ts)"
proof (induction ts arbitrary: r)
  case Nil
  then show ?case by simp
next
  case (Cons tag ts)
  show ?case
  proof (cases "isdigit tag")
    case False
    with Cons.prems have "rename_tags ts r = (r', res)" by simp
    from Cons.IH [OF this Cons.prems(2,3)] False Cons.prems(3) show ?thesis by auto
  next
    case True
    show ?thesis
    proof (cases "map_of r tag")
      case None
      with True Cons.prems show ?thesis by auto
    next
      case (Some v)
      let ?r2 = "AList.delete tag (AList.update (''v'' @ tag) v r)"
      from Some True Cons.prems have run: "rename_tags ts ?r2 = (r', res)" by simp
      from Cons.IH [OF run Cons.prems(2,3)]
      have ih: "k \<in> fst ` set ?r2" "res = Inr () \<longrightarrow> k \<notin> set ts" by simp_all
      have "k \<noteq> tag" using ih(1) AList.delete_notin_dom [of tag "AList.update (''v'' @ tag) v r"] by auto
      moreover have "k \<in> fst ` set (AList.update (''v'' @ tag) v r)"
        using ih(1) AList.dom_delete_subset [of tag "AList.update (''v'' @ tag) v r"] by blast
      moreover have "k \<noteq> ''v'' @ tag" using Cons.prems(3) v_not_isdigit [of tag] by auto
      ultimately show ?thesis using ih(2) by (auto simp: AList.dom_update)
    qed
  qed
qed

section \<open>Normalised records\<close>

lemma decompose_keeps:
  "k \<noteq> ''journal'' \<Longrightarrow> k \<noteq> ''issue'' \<Longrightarrow> k \<noteq> ''document'' \<Longrightarrow>
   map_of (decompose pid r) k = map_of r k"
  by (simp add: decompose_def Let_def AList.update_conv')

lemma decompose_9:
  "length pid = 9 \<Longrightarrow>
   map_of (decompose pid r) ''journal'' = Some (Scalar pid) \<and>
   map_of (decompose pid r) ''issue'' = map_of r ''issue'' \<and>
   map_of (decompose pid r) ''document'' = map_of r ''document''"
  by (simp add: decompose_def Let_def AList.update_conv')

lemma decompose_other:
  "length pid \<notin> {9, 17, 23, 28} \<Longrightarrow> decompose pid r = r"
  by (simp add: decompose_def Let_def)

lemma stamp_lookup:
  "map_of (stamp c pid r) k =
     (if k = ''v880'' then Some (Occs [[(''_'', PStr pid)]])
      else if k = ''code'' then Some (Scalar pid)
      else if k = ''collection'' then Some (Scalar c)
      else if k = ''v992'' then Some (Occs [[(''_'', PStr c)]])
      else map_of r k)"
  by (simp add: stamp_def AList.update_conv')

lemma prepare_record_cases:
  assumes "prepare_record env c r = (r', Inr (Some out))"
  obtains r1 pid d where
    "rename_tags (map fst r) r = (r1, Inr ())"
    "derive_pid r1 = Inr (PStr pid)" "pid \<noteq> []"
    "processing_date env (stamp c pid r1) = Inr d"
    "out = decompose pid (AList.update ''processing_date'' (Scalar d) (stamp c pid r1))"
    "r' = out"
proof -
  obtain r1 res where rn: "rename_tags (map fst r) r = (r1, res)" by (cases "rename_tags (map fst r) r")
  show ?thesis
  proof (cases res)
    case (Inl e)
    with rn assms show ?thesis by (simp add: prepare_record_def)
  next
    case (Inr u)
    note res = this
    show ?thesis
    proof (cases "derive_pid r1")
      case (Inl e)
      with rn res assms show ?thesis by (simp add: prepare_record_def)
    next
      case (Inr v)
      note dp = this
      show ?thesis
      proof (cases v)
        case PNone
        with rn res dp assms show ?thesis by (simp add: prepare_record_def)
      next
        case (PStr pid)
        note v = this
        show ?thesis
        proof (cases "pid = []")
          case True
          with rn res dp v assms show ?thesis by (simp add: prepare_record_def)
        next
          case False
          show ?thesis
          proof (cases "processing_date env (stamp c pid r1)")
            case (Inl e)
            with rn res dp v False assms show ?thesis by (simp add: prepare_record_def Let_def)
          next
            case (Inr d)
            with rn res dp v False assms
            have "out = decompose pid (AList.update ''processing_date'' (Scalar d) (stamp c pid r1))"
                 "r' = out"
              by (auto simp: prepare_record_def Let_def)
            with rn res dp v False Inr show ?thesis using that by simp
          qed
        qed
      qed
    qed
  qed
qed

lemma decompose_17:
  "length pid = 17 \<Longrightarrow>
   map_of (decompose pid r) ''journal'' = Some (Scalar (take 9 pid)) \<and>
   map_of (decompose pid r) ''issue'' = Some (Scalar pid) \<and>
   map_of (decompose pid r) ''document'' = map_of r ''document''"
  by (simp add: decompose_def Let_def AList.update_conv')

lemma decompose_23:
  "length pid = 23 \<Longrightarrow>
   map_of (decompose pid r) ''journal'' = Some (Scalar (slice 1 10 pid)) \<and>
   map_of (decompose pid r) ''issue'' = Some (Scalar (slice 1 18 pid)) \<and>
   map_of (decompose pid r) ''document'' = Some (Scalar pid)"
  by (simp add: decompose_def Let_def AList.update_conv')

lemma decompose_28:
  "length pid = 28 \<Longrightarrow>
   map_of (decompose pid r) ''journal'' = Some (Scalar (slice 1 10 pid)) \<and>
   map_of (decompose pid r) ''issue'' = Some (Scalar (slice 1 18 pid)) \<and>
   map_of (decompose pid r) ''document'' = Some (Scalar (take 23 pid))"
  by (simp add: decompose_def Let_def AList.update_conv')

lemma raw_record_no_key:
  "raw_record r \<Longrightarrow> \<not> isdigit k \<Longrightarrow> map_of r k = None"
proof -
  assume a: "raw_record r" "\<not> isdigit k"
  then have "k \<notin> fst ` set r" by (auto simp: raw_record_def list_all_iff)
  then show ?thesis by (simp add: map_of_eq_None_iff)
qed

lemma sub_identifier_keys:
  "\<not> isdigit ''journal''" "hd ''journal'' \<noteq> CHR ''v''"
  "\<not> isdigit ''issue''" "hd ''issue'' \<noteq> CHR ''v''"
  "\<not> isdigit ''document''" "hd ''document'' \<noteq> CHR ''v''"
  by (simp_all add: isdigit_def is_digit_def)

text \<open>What an emitted record holds under the keys that normalisation may add.\<close>

lemma prepare_record_emitted:
  assumes "prepare_record env c r = (r', Inr (Some out))" and "raw_record r"
  obtains pid where "pid \<noteq> []"
      and "map_of out ''code'' = Some (Scalar pid)"
      and "\<exists>base. out = decompose pid base \<and> map_of base ''journal'' = None \<and>
             map_of base ''issue'' = None \<and> map_of base ''document'' = None"
proof -
  from assms(1) obtain r1 pid d where
    rn: "rename_tags (map fst r) r = (r1, Inr ())" and
    pid: "pid \<noteq> []" and
    out: "out = decompose pid (AList.update ''processing_date'' (Scalar d) (stamp c pid r1))"
    by (rule prepare_record_cases)
  let ?base = "AList.update ''processing_date'' (Scalar d) (stamp c pid r1)"
  have j: "map_of r1 ''journal'' = None"
    using rename_tags_other [OF rn sub_identifier_keys(1,2)]
          raw_record_no_key [OF assms(2) sub_identifier_keys(1)] by simp
  have i: "map_of r1 ''issue'' = None"
    using rename_tags_other [OF rn sub_identifier_keys(3,4)]
          raw_record_no_key [OF assms(2) sub_identifier_keys(3)] by simp
  have d: "map_of r1 ''document'' = None"
    using rename_tags_other [OF rn sub_identifier_keys(5,6)]
          raw_record_no_key [OF assms(2) sub_identifier_keys(5)] by simp
  have "map_of ?base ''journal'' = None" "map_of ?base ''issue'' = None"
       "map_of ?base ''document'' = None"
    using j i d by (simp_all add: AList.update_conv' stamp_lookup)
  moreover have "map_of out ''code'' = Some (Scalar pid)"
    by (simp add: out decompose_keeps AList.update_conv' stamp_lookup)
  ultimately show ?thesis using that pid out by blast
qed

text \<open>
  C2. A record that \<open>prepare_record\<close> emits for a raw record carries its PID under
  \<open>code\<close>, and its sub-identifiers follow the length of that PID: with 9 characters
  \<open>journal\<close> is the PID and there is neither \<open>issue\<close> nor \<open>document\<close>; with 17,
  \<open>journal\<close> is \<open>pid[0:9]\<close>, \<open>issue\<close> is the PID and there is no \<open>document\<close>; with
  23, \<open>journal\<close> is \<open>pid[1:10]\<close>, \<open>issue\<close> is \<open>pid[1:18]\<close> and \<open>document\<close> is the
  PID; with 28, \<open>journal\<close> and \<open>issue\<close> are as for 23 and \<open>document\<close> is
  \<open>pid[0:23]\<close>.
\<close>

theorem pid_decomposition:
  assumes "raw_record r"
      and "prepare_record env c r = (r', Inr (Some out))"
      and "map_of out ''code'' = Some (Scalar pid)"
  shows "(length pid = 9 \<longrightarrow>
            map_of out ''journal'' = Some (Scalar pid) \<and>
            map_of out ''issue'' = None \<and> map_of out ''document'' = None) \<and>
         (length pid = 17 \<longrightarrow>
            map_of out ''journal'' = Some (Scalar (slice 0 9 pid)) \<and>
            map_of out ''issue'' = Some (Scalar pid) \<and> map_of out ''document'' = None) \<and>
         (length pid = 23 \<longrightarrow>
            map_of out ''journal'' = Some (Scalar (slice 1 10 pid)) \<and>
            map_of out ''issue'' = Some (Scalar (slice 1 18 pid)) \<and>
            map_of out ''document'' = Some (Scalar pid)) \<and>
         (length pid = 28 \<longrightarrow>
            map_of out ''journal'' = Some (Scalar (slice 1 10 pid)) \<and>
            map_of out ''issue'' = Some (Scalar (slice 1 18 pid)) \<and>
            map_of out ''document'' = Some (Scalar (slice 0 23 pid)))"
proof -
  from assms(2,1) obtain pid' base where
    code: "map_of out ''code'' = Some (Scalar pid')" and
    out: "out = decompose pid' base" and
    base: "map_of base ''journal'' = None" "map_of base ''issue'' = None"
          "map_of base ''document'' = None"
    by (rule prepare_record_emitted) blast
  from code assms(3) have eq: "pid' = pid" by simp
  have s0: "slice 0 n pid = take n pid" for n by (simp add: slice_def)
  show ?thesis
    using decompose_9 [of pid base] decompose_17 [of pid base]
          decompose_23 [of pid base] decompose_28 [of pid base] base
    by (simp add: out eq s0)
qed

theorem pid_decomposition_witness:
  "raw_record [(''35'', Occs [[(''_'', PStr ''0032-281X'')]]),
               (''36'', Occs [[(''_'', PStr ''20023'')]])]
   \<and> (\<exists>out. snd (prepare_record example_env ''scl''
                  [(''35'', Occs [[(''_'', PStr ''0032-281X'')]]),
                   (''36'', Occs [[(''_'', PStr ''20023'')]])]) = Inr (Some out)
         \<and> map_of out ''code'' = Some (Scalar ''0032-281X20020003'')
         \<and> length ''0032-281X20020003'' = 17
         \<and> map_of out ''journal'' = Some (Scalar ''0032-281X'')
         \<and> map_of out ''issue'' = Some (Scalar ''0032-281X20020003'')
         \<and> map_of out ''document'' = None)"
proof -
  let ?r = "[(''35'', Occs [[(''_'', PStr ''0032-281X'')]]),
             (''36'', Occs [[(''_'', PStr ''20023'')]])]"
  let ?out = "[(''v35'', Occs [[(''_'', PStr ''0032-281X'')]]),
               (''v36'', Occs [[(''_'', PStr ''20023'')]]),
               (''v992'', Occs [[(''_'', PStr ''scl'')]]),
               (''collection'', Scalar ''scl''),
               (''code'', Scalar ''0032-281X20020003''),
               (''v880'', Occs [[(''_'', PStr ''0032-281X20020003'')]]),
               (''processing_date'', Scalar ''2018-05-17''),
               (''journal'', Scalar ''0032-281X''),
               (''issue'', Scalar ''0032-281X20020003'')]"
  have raw: "raw_record ?r" by code_simp
  have run: "prepare_record example_env ''scl'' ?r = (?out, Inr (Some ?out))" by code_simp
  have code: "map_of ?out ''code'' = Some (Scalar ''0032-281X20020003'')" by simp
  have len: "length ''0032-281X20020003'' = 17" by simp
  have sl: "slice 0 9 ''0032-281X20020003'' = ''0032-281X''" by (simp add: slice_def)
  from pid_decomposition [OF raw run code] len sl
  have "map_of ?out ''journal'' = Some (Scalar ''0032-281X'') \<and>
        map_of ?out ''issue'' = Some (Scalar ''0032-281X20020003'') \<and>
        map_of ?out ''document'' = None"
    by simp
  with raw run code len show ?thesis by simp
qed

section \<open>Records without sub-identifiers\<close>

lemma emitted_nonempty:
  assumes "prepare_record env c r = (r', Inr (Some out))"
  shows "out \<noteq> []"
proof -
  from assms obtain r1 pid d where
    out: "out = decompose pid (AList.update ''processing_date'' (Scalar d) (stamp c pid r1))"
    by (rule prepare_record_cases)
  have "map_of out ''code'' = Some (Scalar pid)"
    by (simp add: out decompose_keeps AList.update_conv' stamp_lookup)
  then show ?thesis by auto
qed

text \<open>
  C7. A record that \<open>prepare_record\<close> emits for a raw record with a PID whose length
  is none of 9, 17, 23 and 28 has no \<open>journal\<close>, \<open>issue\<close> or \<open>document\<close>. Without an
  ISSN filter \<open>load_isis_records\<close> yields it and goes on. With a filter, the test
  \<open>record['journal'] in issns\<close> raises KeyError, which ends the scan: the record is
  not yielded and the records after it are not read.
\<close>

theorem odd_length_pid_with_filter:
  assumes "raw_record r"
      and "prepare_record env c r = (r', Inr (Some out))"
      and "map_of out ''code'' = Some (Scalar pid)"
      and "length pid \<notin> {9, 17, 23, 28}"
  shows "map_of out ''journal'' = None \<and> map_of out ''issue'' = None \<and>
         map_of out ''document'' = None \<and>
         (\<not> issns_truthy issns \<longrightarrow>
            scan_records env c issns coll (r # rest) =
              yield (coll, out) (scan_records env c issns coll rest)) \<and>
         (issns_truthy issns \<longrightarrow>
            scan_records env c issns coll (r # rest) = raise KeyError)"
proof -
  from assms(2,1) obtain pid' base where
    code: "map_of out ''code'' = Some (Scalar pid')" and
    out: "out = decompose pid' base" and
    base: "map_of base ''journal'' = None" "map_of base ''issue'' = None"
          "map_of base ''document'' = None"
    by (rule prepare_record_emitted) blast
  from code assms(3) have eq: "pid' = pid" by simp
  from assms(4) have "decompose pid base = base" by (rule decompose_other)
  with out eq base have none: "map_of out ''journal'' = None" "map_of out ''issue'' = None"
    "map_of out ''document'' = None" by simp_all
  have ne: "out \<noteq> []" using assms(2) by (rule emitted_nonempty)
  from assms(2) ne none(1) have
    "\<not> issns_truthy issns \<longrightarrow>
       scan_records env c issns coll (r # rest) =
         yield (coll, out) (scan_records env c issns coll rest)"
    "issns_truthy issns \<longrightarrow> scan_records env c issns coll (r # rest) = raise KeyError"
    by simp_all
  with none show ?thesis by simp
qed

theorem odd_length_pid_with_filter_witness:
  "raw_record [(''880'', Occs [[(''_'', PStr ''0032-281X200'')]])]
   \<and> length ''0032-281X200'' \<notin> {9, 17, 23, 28}
   \<and> issns_truthy (Some [''0032-281X''])
   \<and> (\<exists>out. snd (prepare_record example_env ''scl''
                   [(''880'', Occs [[(''_'', PStr ''0032-281X200'')]])]) = Inr (Some out)
          \<and> map_of out ''code'' = Some (Scalar ''0032-281X200''))
   \<and> scan_records example_env ''scl'' (Some [''0032-281X'']) ''articles''
        [[(''880'', Occs [[(''_'', PStr ''0032-281X200'')]])],
         [(''880'', Occs [[(''_'', PStr ''0032-281X'')]])]]
      = ([], [], Inl KeyError)"
proof -
  let ?r = "[(''880'', Occs [[(''_'', PStr ''0032-281X200'')]])]"
  let ?out = "[(''v880'', Occs [[(''_'', PStr ''0032-281X200'')]]),
               (''v992'', Occs [[(''_'', PStr ''scl'')]]),
               (''collection'', Scalar ''scl''), (''code'', Scalar ''0032-281X200''),
               (''processing_date'', Scalar ''2018-05-17'')]"
  have raw: "raw_record ?r" by code_simp
  have run: "prepare_record example_env ''scl'' ?r = (?out, Inr (Some ?out))" by code_simp
  have code: "map_of ?out ''code'' = Some (Scalar ''0032-281X200'')" by simp
  have len: "length ''0032-281X200'' \<notin> {9, 17, 23, 28}" by simp
  have f: "issns_truthy (Some [''0032-281X''])" by simp
  from odd_length_pid_with_filter [OF raw run code len] f
  have "scan_records example_env ''scl'' (Some [''0032-281X'']) ''articles''
          (?r # [[(''880'', Occs [[(''_'', PStr ''0032-281X'')]])]]) = raise KeyError"
    by blast
  with raw run code len f show ?thesis by (simp add: raise_def)
qed

section \<open>The ISSN filter\<close>

lemma fst_yield: "fst (yield y k) = y # fst k"
  by (cases k) (simp add: yield_def)

lemma fst_logged: "fst (logged l k) = fst k"
  by (cases k) (simp add: logged_def)

lemma fst_raise: "fst (raise e) = []"
  by (simp add: raise_def)

lemma fst_continue_with: "set (fst (continue_with k1 k2)) \<subseteq> set (fst k1) \<union> set (fst k2)"
  by (cases k1; cases k2) (auto simp: continue_with_def split: sum.splits)

text \<open>What one record contributes to the pairs a scan yields.\<close>

lemma scan_records_step:
  "fst (scan_records env c issns coll (r # rest)) = [] \<or>
   fst (scan_records env c issns coll (r # rest)) = fst (scan_records env c issns coll rest) \<or>
   (\<exists>out. fst (scan_records env c issns coll (r # rest)) =
            (coll, out) # fst (scan_records env c issns coll rest) \<and>
          (issns_truthy issns \<longrightarrow>
             (\<exists>j. map_of out ''journal'' = Some j \<and> in_issns j issns)))"
proof -
  obtain r' res where p: "prepare_record env c r = (r', res)"
    by (cases "prepare_record env c r")
  show ?thesis
  proof (cases res)
    case (Inl e)
    show ?thesis
    proof (cases "set_trace env")
      case Inl
      with p \<open>res = Inl e\<close> show ?thesis by (simp add: fst_raise)
    next
      case (Inr u)
      obtain r'' res' where p': "prepare_record env c r' = (r'', res')"
        by (cases "prepare_record env c r'")
      with p \<open>res = Inl e\<close> Inr show ?thesis
        by (cases res') (simp_all add: fst_raise fst_logged)
    qed
  next
    case (Inr v)
    show ?thesis
    proof (cases v)
      case None
      with p Inr show ?thesis by simp
    next
      case (Some out)
      show ?thesis
      proof (cases "out = [] \<or> \<not> issns_truthy issns")
        case True
        with p Inr Some show ?thesis by (auto simp: fst_yield)
      next
        case False
        with p Inr Some show ?thesis
          by (cases "map_of out ''journal''") (auto simp: fst_yield fst_raise)
      qed
    qed
  qed
qed

lemma in_issns_member:
  "in_issns j (Some xs) \<Longrightarrow> \<exists>s. j = Scalar s \<and> s \<in> set xs"
  by (cases j) simp_all

lemma scan_records_filtered:
  assumes "xs \<noteq> []" and "(cl, out) \<in> set (fst (scan_records env c (Some xs) coll records))"
  shows "\<exists>s. map_of out ''journal'' = Some (Scalar s) \<and> s \<in> set xs"
  using assms(2)
proof (induction records)
  case Nil
  then show ?case by simp
next
  case (Cons r rest)
  from assms(1) have t: "issns_truthy (Some xs)" by simp
  let ?now = "fst (scan_records env c (Some xs) coll (r # rest))"
  let ?later = "fst (scan_records env c (Some xs) coll rest)"
  from scan_records_step [of env c "Some xs" coll r rest] t
  consider "?now = []" | "?now = ?later"
    | out' j where "?now = (coll, out') # ?later" "map_of out' ''journal'' = Some j"
        "in_issns j (Some xs)"
    by blast
  then show ?case
  proof cases
    case 1
    with Cons.prems show ?thesis by (simp del: scan_records.simps)
  next
    case 2
    with Cons show ?thesis by (simp del: scan_records.simps)
  next
    case 3
    from Cons.prems 3(1) have "(cl, out) = (coll, out') \<or> (cl, out) \<in> set ?later"
      by (simp del: scan_records.simps)
    then show ?thesis
    proof
      assume "(cl, out) = (coll, out')"
      with 3(2) in_issns_member [OF 3(3)] show ?thesis by auto
    next
      assume "(cl, out) \<in> set ?later"
      then show ?thesis by (rule Cons.IH)
    qed
  qed
qed

lemma load_databases_filtered:
  assumes "xs \<noteq> []" and "(cl, out) \<in> set (fst (load_databases env c (Some xs) dbs))"
  shows "\<exists>s. map_of out ''journal'' = Some (Scalar s) \<and> s \<in> set xs"
  using assms(2)
proof (induction dbs)
  case Nil
  then show ?case by simp
next
  case (Cons db dbs)
  obtain iso_name coll where db: "db = (iso_name, coll)" by (cases db)
  show ?case
  proof (cases "IsisDataBroker env (isofile env c iso_name)")
    case (Inl e)
    with Cons.prems db show ?thesis by (simp add: fst_logged fst_raise split: if_splits)
  next
    case (Inr records)
    with Cons.prems db have
      "(cl, out) \<in> set (fst (continue_with (scan_records env c (Some xs) coll records)
                                             (load_databases env c (Some xs) dbs)))"
      by (simp add: fst_logged)
    with fst_continue_with have
      "(cl, out) \<in> set (fst (scan_records env c (Some xs) coll records)) \<or>
       (cl, out) \<in> set (fst (load_databases env c (Some xs) dbs))"
      by blast
    with Cons.IH scan_records_filtered [OF assms(1)] show ?thesis by blast
  qed
qed

text \<open>The listings a loader asks for, and when it returns.\<close>

lemma query_loop_calls:
  "\<exists>n \<le> length qs. fst (query_loop sv k c qs tr) = tr @ map (Query k c) (take n qs)"
proof (induction qs arbitrary: tr)
  case Nil
  then show ?case by simp
next
  case (Cons q qs)
  show ?case
  proof (cases "rc_query sv tr k c q")
    case (Inl e)
    then have "fst (query_loop sv k c (q # qs) tr) = tr @ map (Query k c) (take 1 (q # qs))"
      by simp
    then show ?thesis by (intro exI [of _ 1]) simp
  next
    case (Inr items)
    from Cons.IH [of "tr @ [Query k c q]"] obtain n where
      n: "n \<le> length qs"
         "fst (query_loop sv k c qs (tr @ [Query k c q])) = (tr @ [Query k c q]) @ map (Query k c) (take n qs)"
      by blast
    with Inr have "fst (query_loop sv k c (q # qs) tr) = tr @ map (Query k c) (take (Suc n) (q # qs))"
      by (auto split: prod.splits sum.splits)
    with n(1) show ?thesis by (intro exI [of _ "Suc n"]) simp
  qed
qed

lemma query_loop_returns:
  assumes "\<forall>h q. \<exists>items. rc_query sv h k c q = Inr items"
  shows "\<exists>pids. query_loop sv k c qs tr = (tr @ map (Query k c) qs, Inr pids)"
proof (induction qs arbitrary: tr)
  case Nil
  then show ?case by simp
next
  case (Cons q qs)
  from assms obtain items where i: "rc_query sv tr k c q = Inr items" by blast
  from Cons.IH [of "tr @ [Query k c q]"] obtain pids where
    "query_loop sv k c qs (tr @ [Query k c q]) = ((tr @ [Query k c q]) @ map (Query k c) qs, Inr pids)"
    by blast
  with i show ?case by simp
qed

lemma issns_or_none_filter: "xs \<noteq> [] \<Longrightarrow> issns_or_none (Some xs) = map Some xs"
  by (simp add: issns_or_none_def)

text \<open>The examples, evaluated.\<close>


lemma example_journal_0032:
  "prepare_record example_env ''scl'' [(''400'', Occs [[(''_'', PStr ''0032-281X'')]])] =
     ([(''v400'', Occs [[(''_'', PStr ''0032-281X'')]]),
       (''v992'', Occs [[(''_'', PStr ''scl'')]]),
       (''collection'', Scalar ''scl''), (''code'', Scalar ''0032-281X''),
       (''v880'', Occs [[(''_'', PStr ''0032-281X'')]]),
       (''processing_date'', Scalar ''2018-05-17''),
       (''journal'', Scalar ''0032-281X'')],
      Inr (Some
       [(''v400'', Occs [[(''_'', PStr ''0032-281X'')]]),
        (''v992'', Occs [[(''_'', PStr ''scl'')]]),
        (''collection'', Scalar ''scl''), (''code'', Scalar ''0032-281X''),
        (''v880'', Occs [[(''_'', PStr ''0032-281X'')]]),
        (''processing_date'', Scalar ''2018-05-17''),
        (''journal'', Scalar ''0032-281X'')]))"
  by code_simp

lemma example_journal_1234:
  "prepare_record example_env ''scl'' [(''400'', Occs [[(''_'', PStr ''1234-5678'')]])] =
     ([(''v400'', Occs [[(''_'', PStr ''1234-5678'')]]),
       (''v992'', Occs [[(''_'', PStr ''scl'')]]),
       (''collection'', Scalar ''scl''), (''code'', Scalar ''1234-5678''),
       (''v880'', Occs [[(''_'', PStr ''1234-5678'')]]),
       (''processing_date'', Scalar ''2018-05-17''),
       (''journal'', Scalar ''1234-5678'')],
      Inr (Some
       [(''v400'', Occs [[(''_'', PStr ''1234-5678'')]]),
        (''v992'', Occs [[(''_'', PStr ''scl'')]]),
        (''collection'', Scalar ''scl''), (''code'', Scalar ''1234-5678''),
        (''v880'', Occs [[(''_'', PStr ''1234-5678'')]]),
        (''processing_date'', Scalar ''2018-05-17''),
        (''journal'', Scalar ''1234-5678'')]))"
  by code_simp

lemma example_sources:
  "IsisDataBroker example_env (isofile example_env ''scl'' ''title'') =
     Inr [[(''400'', Occs [[(''_'', PStr ''0032-281X'')]])],
          [(''400'', Occs [[(''_'', PStr ''1234-5678'')]])]]"
  "IsisDataBroker example_env (isofile example_env ''scl'' ''issue'') = Inr []"
  "IsisDataBroker example_env (isofile example_env ''scl'' ''artigo'') = Inr []"
  "IsisDataBroker example_env (isofile example_env ''scl'' ''bib4cit'') = Inr []"
  by (simp_all add: example_env_def example_records_def isofile_def)

lemma example_scan:
  "fst (load_isis_records example_env ''scl'' (Some [''0032-281X''])) =
     [(''journals'',
       [(''v400'', Occs [[(''_'', PStr ''0032-281X'')]]),
        (''v992'', Occs [[(''_'', PStr ''scl'')]]),
        (''collection'', Scalar ''scl''), (''code'', Scalar ''0032-281X''),
        (''v880'', Occs [[(''_'', PStr ''0032-281X'')]]),
        (''processing_date'', Scalar ''2018-05-17''),
        (''journal'', Scalar ''0032-281X'')])]"
  by (simp add: load_isis_records_def DATABASES_def example_sources example_journal_0032
        example_journal_1234 yield_def logged_def continue_with_def)

text \<open>
  C9. With a non-empty ISSN filter, every record that \<open>load_isis_records\<close> yields has
  a \<open>journal\<close> that is a member of the filter. Each of the three remote loaders asks
  for one listing per ISSN of the filter, in order, and never for an unfiltered one:
  the calls it makes are the listings of the first \<open>n\<close> ISSNs (a listing that raises
  ends the loader), and of all of them when no listing raises, in which case the
  loader returns.
\<close>

theorem issn_filter:
  assumes "xs \<noteq> []"
  shows "(\<forall>(cl, out) \<in> set (fst (load_isis_records env c (Some xs))).
            \<exists>s. map_of out ''journal'' = Some (Scalar s) \<and> s \<in> set xs) \<and>
         (\<exists>n \<le> length xs.
            fst (load_articlemeta_issues_ids sv c (Some xs) tr) =
              tr @ map (\<lambda>i. Query Issue c (Some i)) (take n xs)) \<and>
         (\<exists>n \<le> length xs.
            fst (load_articlemeta_documents_ids sv c (Some xs) tr) =
              tr @ map (\<lambda>i. Query Document c (Some i)) (take n xs)) \<and>
         (\<exists>n \<le> length xs.
            fst (load_articlemeta_journals_ids sv c (Some xs) tr) =
              tr @ map (\<lambda>i. Query Journal c (Some i)) (take n xs)) \<and>
         ((\<forall>h k q. \<exists>items. rc_query sv h k c q = Inr items) \<longrightarrow>
            (\<exists>pids. load_articlemeta_issues_ids sv c (Some xs) tr =
                       (tr @ map (\<lambda>i. Query Issue c (Some i)) xs, Inr pids)) \<and>
            (\<exists>pids. load_articlemeta_documents_ids sv c (Some xs) tr =
                       (tr @ map (\<lambda>i. Query Document c (Some i)) xs, Inr pids)) \<and>
            (\<exists>pids. load_articlemeta_journals_ids sv c (Some xs) tr =
                       (tr @ map (\<lambda>i. Query Journal c (Some i)) xs, Inr pids)))"
proof -
  have records: "\<forall>(cl, out) \<in> set (fst (load_isis_records env c (Some xs))).
            \<exists>s. map_of out ''journal'' = Some (Scalar s) \<and> s \<in> set xs"
    using load_databases_filtered [OF assms] by (auto simp: load_isis_records_def)
  have calls: "\<exists>n \<le> length xs.
      fst (query_loop sv k c (issns_or_none (Some xs)) tr) =
        tr @ map (\<lambda>i. Query k c (Some i)) (take n xs)" for k
  proof -
    from query_loop_calls [of "map Some xs" sv k c tr] obtain n where
      "n \<le> length xs"
      "fst (query_loop sv k c (map Some xs) tr) = tr @ map (Query k c) (take n (map Some xs))"
      by auto
    then show ?thesis
      by (intro exI [of _ n]) (simp add: issns_or_none_filter [OF assms] take_map o_def)
  qed
  have returns: "\<exists>pids. query_loop sv k c (issns_or_none (Some xs)) tr =
      (tr @ map (\<lambda>i. Query k c (Some i)) xs, Inr pids)"
    if "\<forall>h k q. \<exists>items. rc_query sv h k c q = Inr items" for k
  proof -
    from that have "\<forall>h q. \<exists>items. rc_query sv h k c q = Inr items" by blast
    from query_loop_returns [OF this, of "map Some xs" tr]
    show ?thesis by (simp add: issns_or_none_filter [OF assms] o_def)
  qed
  from records calls returns show ?thesis
    unfolding load_articlemeta_issues_ids_def load_articlemeta_documents_ids_def
      load_articlemeta_journals_ids_def
    by blast
qed

theorem issn_filter_witness:
  "[''0032-281X''] \<noteq> []
   \<and> (\<forall>h k q. \<exists>items. rc_query example_services h k ''scl'' q = Inr items)
   \<and> (\<exists>out s. fst (load_isis_records example_env ''scl'' (Some [''0032-281X''])) =
                  [(''journals'', out)] \<and>
                map_of out ''journal'' = Some (Scalar s) \<and> s \<in> set [''0032-281X''])
   \<and> (\<exists>pids. load_articlemeta_issues_ids example_services ''scl'' (Some [''0032-281X'']) [] =
         ([Query Issue ''scl'' (Some ''0032-281X'')], Inr pids))"
proof -
  let ?out = "[(''v400'', Occs [[(''_'', PStr ''0032-281X'')]]),
               (''v992'', Occs [[(''_'', PStr ''scl'')]]),
               (''collection'', Scalar ''scl''), (''code'', Scalar ''0032-281X''),
               (''v880'', Occs [[(''_'', PStr ''0032-281X'')]]),
               (''processing_date'', Scalar ''2018-05-17''),
               (''journal'', Scalar ''0032-281X'')]"
  have ne: "[''0032-281X''] \<noteq> []" by simp
  have ok: "\<forall>h k q. \<exists>items. rc_query example_services h k ''scl'' q = Inr items"
    by (simp add: example_services_def)
  have run: "fst (load_isis_records example_env ''scl'' (Some [''0032-281X''])) =
               [(''journals'', ?out)]"
    by (rule example_scan)
  from issn_filter [OF ne, of example_env "''scl''" example_services "[]"] ok
  have all: "\<forall>(cl, out) \<in> set (fst (load_isis_records example_env ''scl'' (Some [''0032-281X'']))).
           \<exists>s. map_of out ''journal'' = Some (Scalar s) \<and> s \<in> set [''0032-281X'']"
   and loader: "\<exists>pids. load_articlemeta_issues_ids example_services ''scl'' (Some [''0032-281X'']) [] =
             ([] @ map (\<lambda>i. Query Issue ''scl'' (Some i)) [''0032-281X''], Inr pids)"
    by blast+
  from all have "\<exists>s. map_of ?out ''journal'' = Some (Scalar s) \<and> s \<in> set [''0032-281X'']"
    by (simp only: run list.set ball_simps prod.case)
  with run have "\<exists>out s. fst (load_isis_records example_env ''scl'' (Some [''0032-281X''])) =
                  [(''journals'', out)] \<and>
                map_of out ''journal'' = Some (Scalar s) \<and> s \<in> set [''0032-281X'']"
    by blast
  moreover from loader have
    "\<exists>pids. load_articlemeta_issues_ids example_services ''scl'' (Some [''0032-281X'']) [] =
         ([Query Issue ''scl'' (Some ''0032-281X'')], Inr pids)"
    by simp
  ultimately show ?thesis using ne ok by blast
qed

section \<open>Integrity errors\<close>

lemma stamp_fixed:
  assumes "map_of s ''v992'' = Some (Occs [[(''_'', PStr c)]])"
      and "map_of s ''collection'' = Some (Scalar c)"
      and "map_of s ''code'' = Some (Scalar pid)"
      and "map_of s ''v880'' = Some (Occs [[(''_'', PStr pid)]])"
  shows "stamp c pid s = s"
  by (simp add: stamp_def AList.update_triv assms)

lemma stamp_idem: "stamp c pid (stamp c pid r) = stamp c pid r"
  by (rule stamp_fixed) (simp_all add: stamp_lookup)

lemma stamp_keys: "fst ` set (stamp c pid r) = {''v880'', ''code'', ''collection'', ''v992''} \<union> fst ` set r"
  by (auto simp: stamp_def AList.dom_update)

lemma stamped_no_digits: "\<not> isdigit ''v880''" "\<not> isdigit ''code''" "\<not> isdigit ''collection''" "\<not> isdigit ''v992''"
  by (simp_all add: isdigit_def is_digit_def)

lemma derive_pid_stamped: "pid \<noteq> [] \<Longrightarrow> derive_pid (stamp c pid r) = Inr (PStr pid)"
  by (simp add: derive_pid_def get_primary_def stamp_lookup)

text \<open>
  A call of \<open>prepare_record\<close> that raises leaves the record in a state on which a
  second call raises the same exception.
\<close>

lemma prepare_record_raises_again:
  assumes d: "distinct (map fst r)" and p: "prepare_record env c r = (r', Inl e)"
  shows "prepare_record env c r' = (r', Inl e)"
proof -
  have "\<forall>t \<in> set (map fst r). isdigit t \<longrightarrow> map_of r t \<noteq> None"
    by (auto simp: map_of_eq_None_iff)
  with d obtain r1 where rn: "rename_tags (map fst r) r = (r1, Inr ())"
    using rename_tags_ok [of "map fst r" r] by blast
  have nodigit: "\<not> isdigit k" if "k \<in> fst ` set r1" for k
    using rename_tags_keys [OF rn that] by auto
  then have id1: "rename_tags (map fst r1) r1 = (r1, Inr ())"
    by (intro rename_tags_no_digits) auto
  show ?thesis
  proof (cases "derive_pid r1")
    case (Inl e1)
    with rn p have "r' = r1" "e = e1" by (simp_all add: prepare_record_def)
    with id1 Inl show ?thesis by (simp add: prepare_record_def)
  next
    case (Inr v)
    show ?thesis
    proof (cases v)
      case PNone
      with rn Inr p show ?thesis by (simp add: prepare_record_def)
    next
      case (PStr pid)
      show ?thesis
      proof (cases "pid = []")
        case True
        with rn Inr PStr p show ?thesis by (simp add: prepare_record_def)
      next
        case False
        let ?r2 = "stamp c pid r1"
        show ?thesis
        proof (cases "processing_date env ?r2")
          case (Inr dt)
          with rn \<open>derive_pid r1 = Inr v\<close> PStr False p show ?thesis
            by (simp add: prepare_record_def Let_def)
        next
          case (Inl e2)
          with rn \<open>derive_pid r1 = Inr v\<close> PStr False p have eq: "r' = ?r2" "e = e2"
            by (simp_all add: prepare_record_def Let_def)
          have "\<not> isdigit k" if "k \<in> fst ` set ?r2" for k
            using that nodigit stamped_no_digits by (auto simp: stamp_keys)
          then have id2: "rename_tags (map fst ?r2) ?r2 = (?r2, Inr ())"
            by (intro rename_tags_no_digits) auto
          from False have dp: "derive_pid ?r2 = Inr (PStr pid)" by (rule derive_pid_stamped)
          have "prepare_record env c ?r2 = (?r2, Inl e2)"
            using id2 dp False Inl by (simp add: prepare_record_def Let_def stamp_idem)
          with eq show ?thesis by simp
        qed
      qed
    qed
  qed
qed

text \<open>
  C6. When \<open>prepare_record\<close> raises on a record, the handler of
  \<open>load_isis_records\<close> enters the debugger and calls \<open>prepare_record\<close> on the
  record again before it logs. The second call raises as the first did, inside the
  handler, so the scan ends there with an exception (that of the debugger when its
  session is quit, that of \<open>prepare_record\<close> otherwise): no integrity error is
  logged, and the records after this one are not read.
\<close>

theorem integrity_error_aborts_scan:
  assumes "distinct (map fst r)"
      and "prepare_record env c r = (r', Inl e)"
  shows "scan_records env c issns coll (r # rest) =
           raise (case set_trace env of Inl quit \<Rightarrow> quit | Inr resumed \<Rightarrow> e)"
proof -
  from assms have "prepare_record env c r' = (r', Inl e)"
    by (rule prepare_record_raises_again)
  with assms(2) show ?thesis by (simp split: sum.splits)
qed

lemma example_bad_date:
  "prepare_record example_env ''scl''
     [(''880'', Occs [[(''_'', PStr ''0032-281X20020003'')]]),
      (''91'', Occs [[(''_'', PStr ''2002-13-45'')]])] =
     ([(''v880'', Occs [[(''_'', PStr ''0032-281X20020003'')]]),
       (''v91'', Occs [[(''_'', PStr ''2002-13-45'')]]),
       (''v992'', Occs [[(''_'', PStr ''scl'')]]),
       (''collection'', Scalar ''scl''),
       (''code'', Scalar ''0032-281X20020003'')],
      Inl ValueError)"
  by code_simp

theorem integrity_error_aborts_scan_witness:
  "distinct (map fst [(''880'', Occs [[(''_'', PStr ''0032-281X20020003'')]]),
                      (''91'', Occs [[(''_'', PStr ''2002-13-45'')]])])
   \<and> snd (prepare_record example_env ''scl''
            [(''880'', Occs [[(''_'', PStr ''0032-281X20020003'')]]),
             (''91'', Occs [[(''_'', PStr ''2002-13-45'')]])]) = Inl ValueError
   \<and> scan_records example_env ''scl'' None ''issues''
        [[(''880'', Occs [[(''_'', PStr ''0032-281X20020003'')]]),
          (''91'', Occs [[(''_'', PStr ''2002-13-45'')]])],
         [(''400'', Occs [[(''_'', PStr ''0032-281X'')]])]]
      = ([], [], Inl ValueError)"
proof -
  let ?r = "[(''880'', Occs [[(''_'', PStr ''0032-281X20020003'')]]),
             (''91'', Occs [[(''_'', PStr ''2002-13-45'')]])]"
  have d: "distinct (map fst ?r)" by simp
  have t: "set_trace example_env = Inr ()" by (simp add: example_env_def)
  from integrity_error_aborts_scan [OF d example_bad_date, of None "''issues''"
         "[[(''400'', Occs [[(''_'', PStr ''0032-281X'')]])]]"]
  have "scan_records example_env ''scl'' None ''issues''
          (?r # [[(''400'', Occs [[(''_'', PStr ''0032-281X'')]])]]) = raise ValueError"
    by (simp add: t)
  with d example_bad_date show ?thesis by (simp add: raise_def)
qed

section \<open>The precedence of the PID\<close>

lemma get_primary_delete:
  "get_primary (AList.delete k r) k d = Inr d"
  "k' \<noteq> k \<Longrightarrow> get_primary (AList.delete k r) k' d = get_primary r k' d"
  by (simp_all add: get_primary_def AList.delete_conv')

lemma issue_pid_delete:
  "k \<noteq> ''v35'' \<Longrightarrow> k \<noteq> ''v36'' \<Longrightarrow> issue_pid (AList.delete k r) = issue_pid r"
proof -
  assume k: "k \<noteq> ''v35''" "k \<noteq> ''v36''"
  have a: "get_primary (AList.delete k r) ''v35'' PNone = get_primary r ''v35'' PNone"
    using k(1) by (simp add: get_primary_delete)
  have b: "get_primary (AList.delete k r) ''v36'' PNone = get_primary r ''v36'' PNone"
    using k(2) by (simp add: get_primary_delete)
  show ?thesis by (simp only: issue_pid_def issue_pid_try_def a b)
qed

lemma derive_pid_falsy_v880:
  assumes "get_primary r ''v880'' PNone = Inr a" and "\<not> truthy a"
  shows "derive_pid r =
           (case issue_pid r of
              Inl e \<Rightarrow> Inl e
            | Inr None \<Rightarrow> get_primary r ''v400'' PNone
            | Inr (Some p) \<Rightarrow> Inr (PStr p))"
proof (cases "issue_pid r")
  case (Inl e)
  with assms show ?thesis by (simp add: derive_pid_def)
next
  case (Inr v)
  show ?thesis
  proof (cases v)
    case None
    with Inr assms show ?thesis by (simp add: derive_pid_def)
  next
    case (Some p)
    with Inr have "p \<noteq> []" by (auto dest: issue_pid_nonempty)
    with Some Inr assms show ?thesis by (simp add: derive_pid_def)
  qed
qed

lemma derive_pid_truthy_v880:
  "get_primary r ''v880'' PNone = Inr a \<Longrightarrow> truthy a \<Longrightarrow> derive_pid r = Inr a"
  by (simp add: derive_pid_def)

lemma derive_pid_falsy_iff:
  "(\<exists>w. derive_pid r = Inr w \<and> \<not> truthy w) \<longleftrightarrow>
   (\<exists>a. get_primary r ''v880'' PNone = Inr a \<and> \<not> truthy a) \<and>
   issue_pid r = Inr None \<and>
   (\<exists>b. get_primary r ''v400'' PNone = Inr b \<and> \<not> truthy b)"
proof (cases "get_primary r ''v880'' PNone")
  case (Inl e)
  then show ?thesis by (simp add: derive_pid_def)
next
  case (Inr a)
  show ?thesis
  proof (cases "truthy a")
    case True
    with Inr show ?thesis by (simp add: derive_pid_truthy_v880)
  next
    case False
    note fall = derive_pid_falsy_v880 [OF Inr False]
    show ?thesis
    proof (cases "issue_pid r")
      case (Inl e)
      with fall show ?thesis by simp
    next
      case (Inr v)
      note ip = this
      show ?thesis
      proof (cases v)
        case None
        with fall ip \<open>get_primary r ''v880'' PNone = Inr a\<close> False show ?thesis by auto
      next
        case (Some p)
        with ip have "p \<noteq> []" by (auto dest: issue_pid_nonempty)
        with fall ip Some show ?thesis by simp
      qed
    qed
  qed
qed

lemma prepare_record_drop:
  assumes "rename_tags (map fst r) r = (r1, Inr ())" and "derive_pid r1 = Inr w" and "\<not> truthy w"
  shows "prepare_record env c r = (r1, Inr None)"
  using assms by (cases w) (simp_all add: prepare_record_def)

lemma prepare_record_drop_iff:
  assumes "rename_tags (map fst r) r = (r1, Inr ())"
  shows "snd (prepare_record env c r) = Inr None \<longleftrightarrow> (\<exists>w. derive_pid r1 = Inr w \<and> \<not> truthy w)"
proof
  assume "\<exists>w. derive_pid r1 = Inr w \<and> \<not> truthy w"
  with assms show "snd (prepare_record env c r) = Inr None"
    by (auto simp: prepare_record_drop)
next
  assume a: "snd (prepare_record env c r) = Inr None"
  show "\<exists>w. derive_pid r1 = Inr w \<and> \<not> truthy w"
  proof (cases "derive_pid r1")
    case (Inl e)
    with assms a show ?thesis by (simp add: prepare_record_def)
  next
    case (Inr w)
    show ?thesis
    proof (cases "truthy w")
      case False
      with Inr show ?thesis by simp
    next
      case True
      then obtain pid where w: "w = PStr pid" "pid \<noteq> []" by (cases w) simp_all
      with assms Inr a show ?thesis
        by (cases "processing_date env (stamp c pid r1)") (simp_all add: prepare_record_def Let_def)
    qed
  qed
qed

lemma prepare_record_code:
  assumes "rename_tags (map fst r) r = (r1, Inr ())" and "derive_pid r1 = Inr (PStr pid)"
      and "prepare_record env c r = (r', Inr (Some out))"
  shows "map_of out ''code'' = Some (Scalar pid)"
proof -
  from assms(3) obtain r1' pid' d where
    "rename_tags (map fst r) r = (r1', Inr ())" "derive_pid r1' = Inr (PStr pid')"
    "out = decompose pid' (AList.update ''processing_date'' (Scalar d) (stamp c pid' r1'))"
    by (rule prepare_record_cases)
  with assms(1,2) have "out = decompose pid (AList.update ''processing_date'' (Scalar d) (stamp c pid r1))"
    by simp
  then show ?thesis by (simp add: decompose_keeps AList.update_conv' stamp_lookup)
qed

lemma raw_record_renames:
  assumes "raw_record r"
  shows "\<exists>r1. rename_tags (map fst r) r = (r1, Inr ())"
proof -
  from assms have d: "distinct (map fst r)" by (simp add: raw_record_def)
  have "\<forall>t \<in> set (map fst r). isdigit t \<longrightarrow> map_of r t \<noteq> None"
    by (auto simp: map_of_eq_None_iff)
  with d show ?thesis by (rule rename_tags_ok)
qed

lemma raw_record_renamed:
  assumes "raw_record r" and rn: "rename_tags (map fst r) r = (r1, Inr ())" and t: "isdigit t"
  shows "get_primary r1 (''v'' @ t) dflt = get_primary r t dflt"
proof -
  from assms have d: "distinct (map fst r)" by (simp add: raw_record_def)
  have nv: "\<not> isdigit (''v'' @ t)" by (simp add: v_not_isdigit)
  then have n1: "\<not> (isdigit (''v'' @ t) \<and> ''v'' @ t \<in> set (map fst r))" by simp
  have "map_of r1 (''v'' @ t) = map_of r t"
  proof (cases "t \<in> set (map fst r)")
    case True
    with t have ex: "\<exists>t' \<in> set (map fst r). isdigit t' \<and> ''v'' @ t = ''v'' @ t'" by blast
    have "map_of r1 (''v'' @ t) = map_of r (tl (''v'' @ t))"
      by (subst rename_tags_lookup [OF d rn], subst if_not_P [OF n1], subst if_P [OF ex],
          rule refl)
    then show ?thesis by simp
  next
    case False
    then have nex: "\<not> (\<exists>t' \<in> set (map fst r). isdigit t' \<and> ''v'' @ t = ''v'' @ t')" by auto
    have "map_of r1 (''v'' @ t) = map_of r (''v'' @ t)"
      by (subst rename_tags_lookup [OF d rn], subst if_not_P [OF n1], subst if_not_P [OF nex],
          rule refl)
    moreover from assms(1) nv have "map_of r (''v'' @ t) = None" by (rule raw_record_no_key)
    moreover from False have "map_of r t = None" by (simp add: map_of_eq_None_iff)
    ultimately show ?thesis by simp
  qed
  then show ?thesis by (simp add: get_primary_def)
qed

text \<open>
  C4, as the code has it. For a raw record, at line 114 (after the tags are renamed)
  the PID is the first truthy value among the primary value of \<open>v880\<close>, the result
  of \<open>issue_pid\<close> and the primary value of \<open>v400\<close>, as long as none of these
  evaluations raises: a value that is present but empty is passed over like an absent
  one. The record that \<open>prepare_record\<close> returns has that PID under \<open>code\<close>. When
  the three are all absent or empty, \<open>prepare_record\<close> returns \<open>None\<close> and
  \<open>load_isis_records\<close> yields nothing for the record and goes on to the next.
\<close>

theorem pid_precedence_by_truthiness:
  assumes "raw_record r" and "rename_tags (map fst r) r = (r1, Inr ())"
  shows "get_primary r1 ''v880'' PNone = get_primary r ''880'' PNone \<and>
         get_primary r1 ''v400'' PNone = get_primary r ''400'' PNone \<and>
         (\<forall>a. get_primary r ''880'' PNone = Inr a \<and> truthy a \<longrightarrow> derive_pid r1 = Inr a) \<and>
         (\<forall>a p. get_primary r ''880'' PNone = Inr a \<and> \<not> truthy a \<and>
                 issue_pid r1 = Inr (Some p) \<longrightarrow> derive_pid r1 = Inr (PStr p)) \<and>
         (\<forall>a. get_primary r ''880'' PNone = Inr a \<and> \<not> truthy a \<and> issue_pid r1 = Inr None \<longrightarrow>
              derive_pid r1 = get_primary r ''400'' PNone) \<and>
         (\<forall>pid out. derive_pid r1 = Inr (PStr pid) \<and>
                    snd (prepare_record env c r) = Inr (Some out) \<longrightarrow>
                    map_of out ''code'' = Some (Scalar pid)) \<and>
         (\<forall>a b. get_primary r ''880'' PNone = Inr a \<and> \<not> truthy a \<and> issue_pid r1 = Inr None \<and>
                 get_primary r ''400'' PNone = Inr b \<and> \<not> truthy b \<longrightarrow>
                 prepare_record env c r = (r1, Inr None) \<and>
                 scan_records env c issns coll (r # rest) = scan_records env c issns coll rest)"
proof -
  have link: "isdigit t \<Longrightarrow> get_primary r1 (''v'' @ t) d = get_primary r t d" for t d
    using assms by (rule raw_record_renamed)
  have "isdigit ''880''" "isdigit ''400''" by (simp_all add: isdigit_def is_digit_def)
  with link [of "''880''" PNone] link [of "''400''" PNone]
  have v880: "get_primary r1 ''v880'' PNone = get_primary r ''880'' PNone"
   and v400: "get_primary r1 ''v400'' PNone = get_primary r ''400'' PNone"
    by simp_all
  have first: "derive_pid r1 = Inr a" if "get_primary r ''880'' PNone = Inr a" "truthy a" for a
    using that v880 by (simp add: derive_pid_truthy_v880)
  have second: "derive_pid r1 = Inr (PStr p)"
    if "get_primary r ''880'' PNone = Inr a" "\<not> truthy a" "issue_pid r1 = Inr (Some p)" for a p
    using derive_pid_falsy_v880 [of r1 a] that v880 by simp
  have third: "derive_pid r1 = get_primary r ''400'' PNone"
    if "get_primary r ''880'' PNone = Inr a" "\<not> truthy a" "issue_pid r1 = Inr None" for a
    using derive_pid_falsy_v880 [of r1 a] that v880 v400 by simp
  have used: "map_of out ''code'' = Some (Scalar pid)"
    if dp: "derive_pid r1 = Inr (PStr pid)" and em: "snd (prepare_record env c r) = Inr (Some out)"
    for pid out
  proof -
    obtain r' where "prepare_record env c r = (r', Inr (Some out))"
      using em by (cases "prepare_record env c r") simp
    with assms(2) dp show ?thesis by (rule prepare_record_code)
  qed
  have dropped: "prepare_record env c r = (r1, Inr None) \<and>
      scan_records env c issns coll (r # rest) = scan_records env c issns coll rest"
    if "get_primary r ''880'' PNone = Inr a" "\<not> truthy a" "issue_pid r1 = Inr None"
       "get_primary r ''400'' PNone = Inr b" "\<not> truthy b" for a b
  proof -
    from third [OF that(1,2,3)] that(4) have "derive_pid r1 = Inr b" by simp
    from prepare_record_drop [OF assms(2) this that(5)]
    have "prepare_record env c r = (r1, Inr None)" .
    then show ?thesis by simp
  qed
  from v880 v400 first second third used dropped show ?thesis by blast
qed

lemma example_nothing_to_derive:
  "raw_record [(''880'', Occs [[(''_'', PStr '''')]]), (''400'', Occs [[(''_'', PStr '''')]])]"
  "rename_tags (map fst [(''880'', Occs [[(''_'', PStr '''')]]), (''400'', Occs [[(''_'', PStr '''')]])])
     [(''880'', Occs [[(''_'', PStr '''')]]), (''400'', Occs [[(''_'', PStr '''')]])]
   = ([(''v880'', Occs [[(''_'', PStr '''')]]), (''v400'', Occs [[(''_'', PStr '''')]])], Inr ())"
  "get_primary [(''880'', Occs [[(''_'', PStr '''')]]), (''400'', Occs [[(''_'', PStr '''')]])]
     ''880'' PNone = Inr (PStr '''')"
  "get_primary [(''880'', Occs [[(''_'', PStr '''')]]), (''400'', Occs [[(''_'', PStr '''')]])]
     ''400'' PNone = Inr (PStr '''')"
  "issue_pid [(''v880'', Occs [[(''_'', PStr '''')]]), (''v400'', Occs [[(''_'', PStr '''')]])]
     = Inr None"
  by code_simp+

theorem pid_precedence_by_truthiness_witness:
  "raw_record [(''880'', Occs [[(''_'', PStr '''')]]), (''400'', Occs [[(''_'', PStr '''')]])]
   \<and> get_primary [(''880'', Occs [[(''_'', PStr '''')]]), (''400'', Occs [[(''_'', PStr '''')]])]
        ''880'' PNone = Inr (PStr '''')
   \<and> \<not> truthy (PStr '''')
   \<and> get_primary [(''880'', Occs [[(''_'', PStr '''')]]), (''400'', Occs [[(''_'', PStr '''')]])]
        ''400'' PNone = Inr (PStr '''')
   \<and> snd (prepare_record example_env ''scl''
            [(''880'', Occs [[(''_'', PStr '''')]]), (''400'', Occs [[(''_'', PStr '''')]])])
      = Inr None
   \<and> scan_records example_env ''scl'' None ''journals''
        [[(''880'', Occs [[(''_'', PStr '''')]]), (''400'', Occs [[(''_'', PStr '''')]])]]
      = ([], [], Inr ())"
proof -
  let ?r = "[(''880'', Occs [[(''_'', PStr '''')]]), (''400'', Occs [[(''_'', PStr '''')]])]"
  let ?r1 = "[(''v880'', Occs [[(''_'', PStr '''')]]), (''v400'', Occs [[(''_'', PStr '''')]])]"
  note ex = example_nothing_to_derive
  have f: "\<not> truthy (PStr '''')" by simp
  from pid_precedence_by_truthiness [OF ex(1) ex(2), of example_env "''scl''" None "''journals''" "[]"]
  have "get_primary ?r ''880'' PNone = Inr (PStr '''') \<and> \<not> truthy (PStr '''') \<and>
        issue_pid ?r1 = Inr None \<and>
        get_primary ?r ''400'' PNone = Inr (PStr '''') \<and> \<not> truthy (PStr '''') \<longrightarrow>
        prepare_record example_env ''scl'' ?r = (?r1, Inr None) \<and>
        scan_records example_env ''scl'' None ''journals'' (?r # []) =
          scan_records example_env ''scl'' None ''journals'' []"
    by blast
  with ex f have "prepare_record example_env ''scl'' ?r = (?r1, Inr None) \<and>
        scan_records example_env ''scl'' None ''journals'' [?r] =
          scan_records example_env ''scl'' None ''journals'' []"
    by blast
  then have "snd (prepare_record example_env ''scl'' ?r) = Inr None"
    "scan_records example_env ''scl'' None ''journals'' [?r] = ([], [], Inr ())"
    by simp_all
  with ex f show ?thesis by blast
qed

lemma example_empty_v880:
  "prepare_record example_env ''scl''
     [(''880'', Occs [[(''_'', PStr '''')]]), (''400'', Occs [[(''_'', PStr ''0032-281X'')]])] =
     ([(''v880'', Occs [[(''_'', PStr ''0032-281X'')]]),
       (''v400'', Occs [[(''_'', PStr ''0032-281X'')]]),
       (''v992'', Occs [[(''_'', PStr ''scl'')]]),
       (''collection'', Scalar ''scl''), (''code'', Scalar ''0032-281X''),
       (''processing_date'', Scalar ''2018-05-17''),
       (''journal'', Scalar ''0032-281X'')],
      Inr (Some
       [(''v880'', Occs [[(''_'', PStr ''0032-281X'')]]),
        (''v400'', Occs [[(''_'', PStr ''0032-281X'')]]),
        (''v992'', Occs [[(''_'', PStr ''scl'')]]),
        (''collection'', Scalar ''scl''), (''code'', Scalar ''0032-281X''),
        (''processing_date'', Scalar ''2018-05-17''),
        (''journal'', Scalar ''0032-281X'')]))"
  by code_simp

theorem pid_precedence_by_presence_counterexample:
  "map_of [(''880'', Occs [[(''_'', PStr '''')]]), (''400'', Occs [[(''_'', PStr ''0032-281X'')]])]
     ''880'' = Some (Occs [[(''_'', PStr '''')]])
   \<and> get_primary [(''880'', Occs [[(''_'', PStr '''')]]),
                  (''400'', Occs [[(''_'', PStr ''0032-281X'')]])] ''880'' PNone = Inr (PStr '''')
   \<and> snd (prepare_record example_env ''scl''
            [(''880'', Occs [[(''_'', PStr '''')]]),
             (''400'', Occs [[(''_'', PStr ''0032-281X'')]])])
      = Inr (Some
         [(''v880'', Occs [[(''_'', PStr ''0032-281X'')]]),
          (''v400'', Occs [[(''_'', PStr ''0032-281X'')]]),
          (''v992'', Occs [[(''_'', PStr ''scl'')]]),
          (''collection'', Scalar ''scl''), (''code'', Scalar ''0032-281X''),
          (''processing_date'', Scalar ''2018-05-17''),
          (''journal'', Scalar ''0032-281X'')])
   \<and> PStr ''0032-281X'' \<noteq> PStr ''''"
proof -
  have "get_primary [(''880'', Occs [[(''_'', PStr '''')]]),
                     (''400'', Occs [[(''_'', PStr ''0032-281X'')]])] ''880'' PNone = Inr (PStr '''')"
    by code_simp
  then show ?thesis by (simp add: example_empty_v880)
qed

text \<open>
  C10. Line 114 works on truthiness. A record whose \<open>v880\<close> holds the empty string
  gets the PID it would get without \<open>v880\<close>: the result of \<open>issue_pid\<close> when that
  returns one, the primary value of \<open>v400\<close> otherwise. The derived value is falsy
  exactly when the primary value of \<open>v880\<close> is falsy, \<open>issue_pid\<close> returns \<open>None\<close>
  and the primary value of \<open>v400\<close> is falsy, an empty \<open>v400\<close> counting like an
  absent one; and \<open>prepare_record\<close> returns \<open>None\<close> exactly when the derived value
  is falsy.
\<close>

theorem pid_truthiness:
  "(get_primary r ''v880'' PNone = Inr (PStr '''') \<longrightarrow>
      derive_pid r = derive_pid (AList.delete ''v880'' r) \<and>
      derive_pid r =
        (case issue_pid r of
           Inl e \<Rightarrow> Inl e
         | Inr None \<Rightarrow> get_primary r ''v400'' PNone
         | Inr (Some p) \<Rightarrow> Inr (PStr p))) \<and>
   ((\<exists>w. derive_pid r = Inr w \<and> \<not> truthy w) \<longleftrightarrow>
      (\<exists>a. get_primary r ''v880'' PNone = Inr a \<and> \<not> truthy a) \<and>
      issue_pid r = Inr None \<and>
      (\<exists>b. get_primary r ''v400'' PNone = Inr b \<and> \<not> truthy b)) \<and>
   (rename_tags (map fst raw) raw = (r, Inr ()) \<longrightarrow>
      (snd (prepare_record env c raw) = Inr None \<longleftrightarrow>
       (\<exists>w. derive_pid r = Inr w \<and> \<not> truthy w))) \<and>
   ((\<exists>a. get_primary r ''v880'' PNone = Inr a \<and> \<not> truthy a) \<and> issue_pid r = Inr None \<and>
    get_primary r ''v400'' PNone = Inr (PStr '''') \<longrightarrow>
      derive_pid r = Inr (PStr ''''))"
proof (intro conjI impI)
  assume e: "get_primary r ''v880'' PNone = Inr (PStr '''')"
  have f: "\<not> truthy (PStr '''')" "\<not> truthy PNone" by simp_all
  have a: "get_primary (AList.delete ''v880'' r) ''v880'' PNone = Inr PNone"
    by (rule get_primary_delete(1))
  have b: "get_primary (AList.delete ''v880'' r) ''v400'' PNone = get_primary r ''v400'' PNone"
    by (rule get_primary_delete(2)) simp
  have c: "issue_pid (AList.delete ''v880'' r) = issue_pid r"
    by (rule issue_pid_delete) simp_all
  show fall: "derive_pid r =
        (case issue_pid r of
           Inl e \<Rightarrow> Inl e
         | Inr None \<Rightarrow> get_primary r ''v400'' PNone
         | Inr (Some p) \<Rightarrow> Inr (PStr p))"
    using e f(1) by (rule derive_pid_falsy_v880)
  from derive_pid_falsy_v880 [OF a f(2)] b c fall
  show "derive_pid r = derive_pid (AList.delete ''v880'' r)"
    by (simp split: sum.splits option.splits)
next
  show "(\<exists>w. derive_pid r = Inr w \<and> \<not> truthy w) \<longleftrightarrow>
      (\<exists>a. get_primary r ''v880'' PNone = Inr a \<and> \<not> truthy a) \<and>
      issue_pid r = Inr None \<and>
      (\<exists>b. get_primary r ''v400'' PNone = Inr b \<and> \<not> truthy b)"
    by (rule derive_pid_falsy_iff)
next
  assume "rename_tags (map fst raw) raw = (r, Inr ())"
  then show "snd (prepare_record env c raw) = Inr None \<longleftrightarrow>
       (\<exists>w. derive_pid r = Inr w \<and> \<not> truthy w)"
    by (rule prepare_record_drop_iff)
next
  assume h: "(\<exists>a. get_primary r ''v880'' PNone = Inr a \<and> \<not> truthy a) \<and> issue_pid r = Inr None \<and>
    get_primary r ''v400'' PNone = Inr (PStr '''')"
  then obtain a where "get_primary r ''v880'' PNone = Inr a" "\<not> truthy a" by blast
  from derive_pid_falsy_v880 [OF this] h show "derive_pid r = Inr (PStr '''')" by simp
qed

theorem pid_truthiness_witness:
  "get_primary [(''v880'', Occs [[(''_'', PStr '''')]]),
                (''v400'', Occs [[(''_'', PStr ''0032-281X'')]])] ''v880'' PNone = Inr (PStr '''')
   \<and> derive_pid [(''v880'', Occs [[(''_'', PStr '''')]]),
                 (''v400'', Occs [[(''_'', PStr ''0032-281X'')]])]
     = derive_pid [(''v400'', Occs [[(''_'', PStr ''0032-281X'')]])]
   \<and> derive_pid [(''v880'', Occs [[(''_'', PStr '''')]]),
                 (''v400'', Occs [[(''_'', PStr ''0032-281X'')]])] = Inr (PStr ''0032-281X'')"
proof -
  let ?r = "[(''v880'', Occs [[(''_'', PStr '''')]]),
             (''v400'', Occs [[(''_'', PStr ''0032-281X'')]])]"
  have e: "get_primary ?r ''v880'' PNone = Inr (PStr '''')" by code_simp
  have d: "AList.delete ''v880'' ?r = [(''v400'', Occs [[(''_'', PStr ''0032-281X'')]])]"
    by code_simp
  have i: "issue_pid ?r = Inr None" by code_simp
  have v: "get_primary ?r ''v400'' PNone = Inr (PStr ''0032-281X'')" by code_simp
  from pid_truthiness [of ?r] e
  have A: "derive_pid ?r = derive_pid (AList.delete ''v880'' ?r)"
   and B: "derive_pid ?r =
          (case issue_pid ?r of
             Inl e \<Rightarrow> Inl e
           | Inr None \<Rightarrow> get_primary ?r ''v400'' PNone
           | Inr (Some p) \<Rightarrow> Inr (PStr p))"
    by blast+
  from A have A': "derive_pid ?r = derive_pid [(''v400'', Occs [[(''_'', PStr ''0032-281X'')]])]"
    by (simp only: d)
  from B have B': "derive_pid ?r = Inr (PStr ''0032-281X'')"
    by (simp only: i v sum.case option.case)
  from e A' B' show ?thesis by blast
qed

section \<open>The phases of a run\<close>

lemma calls_called [simp]: "calls (called c st) = calls st @ [c]"
  by (simp add: called_def)

lemma calls_logging [simp]: "calls (logging l st) = calls st"
  by (simp add: logging_def)

lemma logs_called [simp]: "logs (called c st) = logs st"
  by (simp add: called_def)

lemma logs_logging [simp]: "logs (logging l st) = logs st @ [l]"
  by (simp add: logging_def)




lemma is_delete_delete_call [simp]: "is_delete k (delete_call k' item) = (k = k')"
  by (simp add: delete_call_def)




lemma is_load_load_call [simp]: "is_load k (load_call k' item) = (k = k')"
  by (simp add: load_call_def)





lemma and_then_keeps:
  assumes "\<And>st'. g (fst (f st')) = g st'"
  shows "g (fst (and_then r f)) = g (fst r)"
proof (cases r)
  case (Pair st res)
  then show ?thesis using assms by (cases res) (simp_all add: and_then_def)
qed







section \<open>The phases, key by key\<close>


lemma spec_remove_item_logs:
  "logs (spec_remove_item sv k item st) =
     logs st @
     (case rc_delete sv (calls st) k (split_underscore item ! 1) (split_underscore item ! 0) of
        Inl e \<Rightarrow> [LogWarning unauthorized_msg]
      | Inr u \<Rightarrow> [])"
  by (simp add: spec_remove_item_def split: sum.splits)

















end
